theory Spec2Isabelle
  imports Complex_Main "HOL-Library.Sublist" "HOL-Library.Multiset" "HOL-Library.AList"
begin

section \<open>Strings and POSIX paths\<close>

text \<open>
  JavaScript strings are modelled as \<open>string\<close> (lists of characters). The functions of this
  section embed the parts of Node's \<open>path.posix\<close> module and of the JavaScript string
  library that \<open>services.ts\<close> and \<open>agent.ts\<close> call.
\<close>

text \<open>\<open>s.startsWith(p)\<close>.\<close>

fun startsWith :: "string \<Rightarrow> string \<Rightarrow> bool" where
  "startsWith s [] = True"
| "startsWith [] (p # ps) = False"
| "startsWith (c # cs) (p # ps) = (c = p \<and> startsWith cs ps)"

text \<open>\<open>s.split(c)\<close> for a one-character separator: \<open>''a//b''\<close> gives \<open>[''a'', '''', ''b'']\<close>.\<close>

fun splitOn :: "char \<Rightarrow> string \<Rightarrow> string list" where
  "splitOn c [] = [[]]"
| "splitOn c (x # xs) =
     (if x = c then [] # splitOn c xs
      else (case splitOn c xs of [] \<Rightarrow> [[x]] | y # ys \<Rightarrow> (x # y) # ys))"

text \<open>\<open>xs.join(sep)\<close>.\<close>

fun joinWith :: "string \<Rightarrow> string list \<Rightarrow> string" where
  "joinWith sep [] = []"
| "joinWith sep [x] = x"
| "joinWith sep (x # y # ys) = x @ sep @ joinWith sep (y # ys)"

text \<open>
  Node's \<open>normalizeString(path, allowAboveRoot, '/', isPosixPathSeparator)\<close>, segment by
  segment. The accumulator holds the segments kept so far, last one first. An empty segment
  and \<open>.\<close> are dropped; \<open>..\<close> removes the last kept segment, and at the top it is dropped
  (or kept, when \<open>allowAboveRoot\<close>).
\<close>

fun normSegs :: "bool \<Rightarrow> string list \<Rightarrow> string list \<Rightarrow> string list" where
  "normSegs allow acc [] = rev acc"
| "normSegs allow acc (s # ss) =
     (if s = [] \<or> s = ''.'' then normSegs allow acc ss
      else if s = ''..'' then
        (case acc of
           [] \<Rightarrow> normSegs allow (if allow then [''..''] else []) ss
         | t # ts \<Rightarrow>
             if t = ''..'' then normSegs allow (if allow then ''..'' # acc else acc) ss
             else normSegs allow ts ss)
      else normSegs allow (s # acc) ss)"

definition normalizeString :: "string \<Rightarrow> bool \<Rightarrow> string" where
  "normalizeString p allow = joinWith ''/'' (normSegs allow [] (splitOn CHR ''/'' p))"

definition isAbsolute :: "string \<Rightarrow> bool" where
  "isAbsolute p = (case p of [] \<Rightarrow> False | c # _ \<Rightarrow> c = CHR ''/'')"

text \<open>
  The loop of \<open>path.posix.resolve\<close>: the arguments are read from the right until an absolute
  one is met, empty ones are skipped, and each one read is put in front with a \<open>/\<close>. The list
  given here is the working directory followed by the arguments.
\<close>

fun resolveJoin :: "string list \<Rightarrow> string \<times> bool" where
  "resolveJoin [] = ([], False)"
| "resolveJoin (p # ps) =
     (case resolveJoin ps of
        (r, True) \<Rightarrow> (r, True)
      | (r, False) \<Rightarrow> if p = [] then (r, False) else (p @ ''/'' @ r, isAbsolute p))"

definition path_resolve :: "string \<Rightarrow> string list \<Rightarrow> string" where
  "path_resolve wd args =
     (case resolveJoin (wd # args) of
        (r, absolute) \<Rightarrow>
          (let n = normalizeString r (\<not> absolute)
           in if absolute then ''/'' @ n else if n \<noteq> [] then n else ''.''))"

text \<open>\<open>path.posix.normalize\<close> and \<open>path.posix.join\<close>.\<close>

definition path_normalize :: "string \<Rightarrow> string" where
  "path_normalize p =
     (if p = [] then ''.''
      else
        (let absolute = isAbsolute p;
             trailing = (last p = CHR ''/'');
             n = normalizeString p (\<not> absolute)
         in if n = [] then (if absolute then ''/'' else if trailing then ''./'' else ''.'')
            else (if absolute then ''/'' else []) @ n @ (if trailing then ''/'' else [])))"

definition path_join :: "string list \<Rightarrow> string" where
  "path_join args =
     (case filter (\<lambda>a. a \<noteq> []) args of
        [] \<Rightarrow> ''.''
      | a # as \<Rightarrow> path_normalize (joinWith ''/'' (a # as)))"

section \<open>The path sandbox\<close>

text \<open>
  The process reads its working directory and the variable \<open>DEMO_FS_PATH\<close> once, at start.
\<close>

record config =
  cwd :: string
  env_DEMO_FS_PATH :: "string option"

text \<open>
  \<open>const DEMO_FS_PATH = process.env.DEMO_FS_PATH || path.resolve(process.cwd(), 'data/demo_fs')\<close>:
  an unset or empty variable gives the default.
\<close>

definition DEMO_FS_PATH :: "config \<Rightarrow> string" where
  "DEMO_FS_PATH cfg =
     (case env_DEMO_FS_PATH cfg of
        None \<Rightarrow> path_resolve (cwd cfg) [cwd cfg, ''data/demo_fs'']
      | Some p \<Rightarrow> if p = [] then path_resolve (cwd cfg) [cwd cfg, ''data/demo_fs''] else p)"

text \<open>
  The errors the program meets, as JavaScript throws them. \<open>PathEscapeError\<close> is
  \<open>Error('Path escapes demo filesystem')\<close>, the only error the program makes itself. A
  \<open>SystemError\<close> is an error of a file system call of Node, with its code, the name of the
  call and the path the call was given (if the message names one). An \<open>FsExtraError\<close> is an
  \<open>Error\<close> that \<open>move\<close> of fs-extra throws, with its message.
\<close>

datatype errno = ENOENT | ENOTDIR | EEXIST | EISDIR

datatype error = PathEscapeError | SystemError errno string "string option" | FsExtraError string

definition safeRoot :: "config \<Rightarrow> string" where
  "safeRoot cfg = path_resolve (cwd cfg) [DEMO_FS_PATH cfg]"

definition sanitizePath :: "config \<Rightarrow> string \<Rightarrow> error + string" where
  "sanitizePath cfg rel =
     (let sroot = safeRoot cfg;
          target = path_resolve (cwd cfg) [sroot, ''.'' @ rel]
      in if \<not> startsWith target sroot then Inl PathEscapeError else Inr target)"

text \<open>
  The segments of a path, and containment as the claim has it: a path lies inside the root
  when it is the root or a descendant of it, that is, when the root's segments are the first
  segments of the path.
\<close>

definition pathSegs :: "string \<Rightarrow> string list" where
  "pathSegs p = filter (\<lambda>s. s \<noteq> []) (splitOn CHR ''/'' p)"

definition isInside :: "string \<Rightarrow> string \<Rightarrow> bool" where
  "isInside sroot p = prefix (pathSegs sroot) (pathSegs p)"

text \<open>\<open>path.posix.basename\<close>: the last segment, trailing separators ignored.\<close>

definition basename :: "string \<Rightarrow> string" where
  "basename p = (case rev (pathSegs p) of [] \<Rightarrow> [] | s # _ \<Rightarrow> s)"

text \<open>
  \<open>path.posix.extname\<close>: from the last dot of the base name to its end; empty when the base
  name has no dot, when its only dot is its first character, and for \<open>..\<close>.
\<close>

definition extname :: "string \<Rightarrow> string" where
  "extname p =
     (let b = basename p;
          suffix = rev (takeWhile (\<lambda>c. c \<noteq> CHR ''.'') (rev b));
          stem = rev (drop 1 (dropWhile (\<lambda>c. c \<noteq> CHR ''.'') (rev b)))
      in if CHR ''.'' \<notin> set b \<or> stem = [] \<or> b = ''..'' then [] else CHR ''.'' # suffix)"

text \<open>
  \<open>path.posix.relative\<close>: both paths are resolved; the result climbs out of what is left of
  \<open>from\<close> after the common segments and descends into what is left of \<open>to\<close>.
\<close>

definition path_relative :: "string \<Rightarrow> string \<Rightarrow> string \<Rightarrow> string" where
  "path_relative wd from to =
     (let f = pathSegs (path_resolve wd [from]);
          t = pathSegs (path_resolve wd [to]);
          k = length (longest_common_prefix f t)
      in joinWith ''/'' (replicate (length f - k) ''..'' @ drop k t))"

text \<open>
  \<open>s.toLowerCase()\<close>. A \<open>char\<close> holds a code unit below 256; the letters with a lower case
  there are \<open>A\<close> to \<open>Z\<close> and the letters from U+00C0 to U+00DE (U+00D7 is the
  multiplication sign), each 32 below its lower case.
\<close>

definition lowerChar :: "char \<Rightarrow> char" where
  "lowerChar c =
     (if (65::nat) \<le> of_char c \<and> of_char c \<le> (90::nat)
         \<or> (192::nat) \<le> of_char c \<and> of_char c \<le> (222::nat) \<and> of_char c \<noteq> (215::nat)
      then char_of (of_char c + (32::nat)) else c)"

definition toLowerCase :: "string \<Rightarrow> string" where
  "toLowerCase s = map lowerChar s"

section \<open>Snapshots\<close>

text \<open>
  \<open>FileNode\<close>, with its optional fields as options. Sizes are whole numbers of bytes
  (\<open>stat\<close> reports none below zero); the time stamps are whole numbers of milliseconds since
  the epoch, as \<open>Date.now()\<close> is.
\<close>

datatype ntype = File | Dir

datatype FileNode =
  FileNode (name: string) (path: string) (type_n: ntype) (size_n: "int option")
    (ext: "string option") (children: "FileNode list option")
    (atimeMs: "int option") (mtimeMs: "int option")

text \<open>
  The file system: regular files and directories, a directory listing its entries in the
  order \<open>readdir\<close> returns them. The value of this type is the directory \<open>/\<close>. A file carries
  what \<open>stat\<close> reports and its content; the theorems below do not need the reported size to be
  the length of the content.
\<close>

record stats =
  st_size :: int
  st_atimeMs :: int
  st_mtimeMs :: int

datatype fsnode = FsFile stats string | FsDir stats "(string \<times> fsnode) list"

fun lookupFs :: "string list \<Rightarrow> fsnode \<Rightarrow> fsnode option" where
  "lookupFs [] n = Some n"
| "lookupFs (s # ss) n =
     (case n of
        FsFile st c \<Rightarrow> None
      | FsDir st es \<Rightarrow> (case map_of es s of None \<Rightarrow> None | Some c \<Rightarrow> lookupFs ss c))"

text \<open>
  \<open>fse.stat(absPath)\<close>: the node at the path, \<open>None\<close> where the call fails. The paths the
  program gives to the file system are absolute and normalized: they come from
  \<open>path.resolve\<close> and \<open>path.join\<close>, or are \<open>DEMO_FS_PATH\<close> itself, which is taken to be so
  when the environment gives it.
\<close>

definition stat :: "fsnode \<Rightarrow> string \<Rightarrow> fsnode option" where
  "stat disk absPath = lookupFs (pathSegs absPath) disk"

text \<open>
  The code of a look-up that fails: \<open>ENOTDIR\<close> when a regular file is met before the path
  ends, \<open>ENOENT\<close> when an entry is missing.
\<close>

fun missing :: "string list \<Rightarrow> fsnode \<Rightarrow> errno" where
  "missing [] n = ENOENT"
| "missing (s # ss) (FsFile st c) = ENOTDIR"
| "missing (s # ss) (FsDir st es) =
     (case map_of es s of None \<Rightarrow> ENOENT | Some c \<Rightarrow> missing ss c)"

definition toRel :: "config \<Rightarrow> string \<Rightarrow> string" where
  "toRel cfg absPath =
     ''/'' @ joinWith ''/'' (splitOn CHR ''/'' (path_relative (cwd cfg) (DEMO_FS_PATH cfg) absPath))"

text \<open>
  \<open>buildTree\<close>. The recursion follows the directory it reads: the node found at
  \<open>path.join(absPath, ent)\<close> is the entry \<open>ent\<close> of the directory at \<open>absPath\<close>.
\<close>

fun buildNode :: "config \<Rightarrow> string \<Rightarrow> fsnode \<Rightarrow> FileNode" where
  "buildNode cfg absPath (FsFile st c) =
     FileNode (basename absPath) (toRel cfg absPath) File (Some (st_size st))
       (Some (toLowerCase (drop 1 (extname absPath)))) None
       (Some (st_atimeMs st)) (Some (st_mtimeMs st))"
| "buildNode cfg absPath (FsDir st es) =
     FileNode (basename absPath) (toRel cfg absPath) Dir None None
       (Some (map (\<lambda>(ent, c). buildNode cfg (path_join [absPath, ent]) c) es))
       (Some (st_atimeMs st)) (Some (st_mtimeMs st))"

definition buildTree :: "config \<Rightarrow> fsnode \<Rightarrow> string \<Rightarrow> error + FileNode" where
  "buildTree cfg disk absPath =
     (case stat disk absPath of
        None \<Rightarrow> Inl (SystemError (missing (pathSegs absPath) disk) ''stat'' (Some absPath))
      | Some n \<Rightarrow> Inr (buildNode cfg absPath n))"

text \<open>
  What a call does to the time stamps is the kernel's: it depends on the clock and on the
  options of the mount, which the model takes as parameters. The clock is taken to stand
  still during one call of the program. \<open>readTime\<close> gives the access time a directory has
  once its entries have been listed, from the stats it had; with \<open>noatime\<close> it is the access
  time it had. \<open>dirSize\<close> is the size of a directory just made.
\<close>

record kernel =
  clock :: int
  readTime :: "stats \<Rightarrow> int"
  dirSize :: int

text \<open>
  The file system that \<open>buildTree\<close> leaves: \<open>readdir\<close> has listed the directory at
  \<open>absPath\<close> and every directory below it. \<open>stat\<close> moves no time stamp, and \<open>buildTree\<close>
  calls \<open>stat\<close> on a node before it lists it, and lists it once: the snapshot holds the time
  stamps from before the call, which is why \<open>buildTree\<close> above is a function of the file
  system it finds.
\<close>

fun touchDirs :: "kernel \<Rightarrow> fsnode \<Rightarrow> fsnode" where
  "touchDirs K (FsFile st c) = FsFile st c"
| "touchDirs K (FsDir st es) =
     FsDir (st\<lparr>st_atimeMs := readTime K st\<rparr>) (map (\<lambda>(ent, c). (ent, touchDirs K c)) es)"

fun updateAt :: "string list \<Rightarrow> (fsnode \<Rightarrow> fsnode) \<Rightarrow> fsnode \<Rightarrow> fsnode" where
  "updateAt [] f n = f n"
| "updateAt (s # ss) f (FsFile st c) = FsFile st c"
| "updateAt (s # ss) f (FsDir st es) = FsDir st (AList.map_entry s (\<lambda>c. updateAt ss f c) es)"

definition readTree :: "kernel \<Rightarrow> fsnode \<Rightarrow> string \<Rightarrow> fsnode" where
  "readTree K disk absPath = updateAt (pathSegs absPath) (touchDirs K) disk"

definition scanDirectory :: "config \<Rightarrow> fsnode \<Rightarrow> string \<Rightarrow> error + FileNode" where
  "scanDirectory cfg disk relativeDir =
     (case sanitizePath cfg relativeDir of
        Inl e \<Rightarrow> Inl e
      | Inr sroot \<Rightarrow> buildTree cfg disk sroot)"

text \<open>\<open>flattenFiles\<close>: the file leaves, depth first; \<open>node.children || []\<close>.\<close>

fun flattenFiles :: "FileNode \<Rightarrow> FileNode list" where
  "flattenFiles (FileNode nm p t sz e ch a m) =
     (if t = File then [FileNode nm p t sz e ch a m]
      else concat (map flattenFiles (case ch of None \<Rightarrow> [] | Some cs \<Rightarrow> cs)))"

section \<open>Plans\<close>

record MoveOp =
  from_path :: string
  to_path :: string
  reason :: string

datatype confidence = Low | Medium | High

record DeleteSuggestion =
  file_d :: string
  reason_d :: string
  confidence :: confidence
  sizeBytes :: "int option"
  safeToDelete :: bool

record Plan =
  moves :: "MoveOp list"
  deletions :: "DeleteSuggestion list"


section \<open>The heuristic classifier\<close>

text \<open>\<open>s.includes(sub)\<close>.\<close>

fun includes_s :: "string \<Rightarrow> string \<Rightarrow> bool" where
  "includes_s [] sub = (sub = [])"
| "includes_s (c # cs) sub = (startsWith (c # cs) sub \<or> includes_s cs sub)"

text \<open>
  \<open>decideCategory\<close>. The test \<open>text.includes('by type') || true\<close> is kept as written; after
  the block the function returns \<open>Misc\<close>.
\<close>

definition decideCategory :: "FileNode \<Rightarrow> string \<Rightarrow> string" where
  "decideCategory f instructions =
     (let e = toLowerCase (case ext f of None \<Rightarrow> [] | Some x \<Rightarrow> x);
          txt = toLowerCase instructions
      in if includes_s txt ''by type'' \<or> True then
           (if e \<in> set [''ts'', ''tsx'', ''js'', ''jsx'', ''py'', ''go'', ''java'', ''rb''] then ''Code''
            else if e \<in> set [''md'', ''txt'', ''pdf'', ''doc'', ''docx''] then ''Documents''
            else if e \<in> set [''png'', ''jpg'', ''jpeg'', ''gif'', ''webp'', ''svg''] then ''Images''
            else if e \<in> set [''zip'', ''tar'', ''gz'', ''rar'', ''7z''] then ''Archives''
            else if e \<in> set [''csv'', ''json'', ''xlsx''] then ''Data''
            else ''Misc'')
         else ''Misc'')"

text \<open>
  The loop of the third tier of \<open>createPlanFromInstructions\<close>: one file after the other,
  a move pushed when the file is not at its target.
\<close>

fun heuristicMoves :: "FileNode list \<Rightarrow> string \<Rightarrow> MoveOp list" where
  "heuristicMoves [] instructions = []"
| "heuristicMoves (f # fs) instructions =
     (let category = decideCategory f instructions;
          target = path_join [''/demo'', category, name f]
      in (if path f \<noteq> target
          then [\<lparr>from_path = path f, to_path = target,
                 reason = ''Place in '' @ category @ '' based on extension and instructions''\<rparr>]
          else [])
         @ heuristicMoves fs instructions)"

section \<open>The organizer and the generative model\<close>

text \<open>
  JSON values, as \<open>JSON.parse\<close> returns them. \<open>JSON.parse\<close> itself is a parameter of the
  model: a function from the text to the value, \<open>None\<close> where it throws.
\<close>

datatype json =
  JNull | JBool bool | JNum rat | JString string | JArray "json list"
  | JObject "(string \<times> json) list"

text \<open>JavaScript's truthiness, on JSON values.\<close>

fun truthy :: "json \<Rightarrow> bool" where
  "truthy JNull = False"
| "truthy (JBool b) = b"
| "truthy (JNum n) = (n \<noteq> 0)"
| "truthy (JString s) = (s \<noteq> [])"
| "truthy (JArray xs) = True"
| "truthy (JObject fs) = True"

text \<open>
  The white space of \<open>\s\<close> among the code units below 256 (U+00A0 is one), and the
  comparison of the flag \<open>i\<close>, under which a letter of the pattern matches itself in both
  cases and nothing else.
\<close>

definition isSpace :: "char \<Rightarrow> bool" where
  "isSpace c = (of_char c \<in> set [9, 10, 11, 12, 13, 32, 160 :: nat])"

definition startsWithCI :: "string \<Rightarrow> string \<Rightarrow> bool" where
  "startsWithCI s p = startsWith (toLowerCase s) (toLowerCase p)"

definition fence :: string where
  "fence = [CHR 0x60, CHR 0x60, CHR 0x60]"

text \<open>
  \<open>text.match(/```json\s*([\s\S]*?)```/i)\<close> as the engine runs it, giving the first group of
  the match. The start positions are tried from the left. At a position the opening fence
  and \<open>json\<close> must stand; then \<open>\s*\<close> takes the longest run of white space first and gives
  it back one unit at a time; after it the lazy group takes the shortest text first, and
  stops where the closing fence follows.
\<close>

fun firstSome :: "('a \<Rightarrow> 'b option) \<Rightarrow> 'a list \<Rightarrow> 'b option" where
  "firstSome f [] = None"
| "firstSome f (x # xs) = (case f x of Some y \<Rightarrow> Some y | None \<Rightarrow> firstSome f xs)"

definition lazyGroup :: "string \<Rightarrow> string option" where
  "lazyGroup s =
     firstSome (\<lambda>l. if startsWith (drop l s) fence then Some (take l s) else None)
       [0..<Suc (length s)]"

definition greedySpace :: "string \<Rightarrow> string option" where
  "greedySpace s =
     firstSome (\<lambda>k. lazyGroup (drop k s)) (rev [0..<Suc (length (takeWhile isSpace s))])"

definition matchAt :: "string \<Rightarrow> string option" where
  "matchAt s =
     (if startsWithCI s (fence @ ''json'') then greedySpace (drop (length (fence @ ''json'')) s)
      else None)"

definition matchCodeBlock :: "string \<Rightarrow> string option" where
  "matchCodeBlock txt = firstSome (\<lambda>i. matchAt (drop i txt)) [0..<Suc (length txt)]"

text \<open>\<open>s.indexOf(c)\<close>, \<open>s.lastIndexOf(c)\<close> and \<open>s.slice(a, b)\<close> for \<open>a \<le> b\<close> within the text.\<close>

definition indexOf :: "string \<Rightarrow> char \<Rightarrow> nat option" where
  "indexOf s c = (if c \<in> set s then Some (length (takeWhile (\<lambda>x. x \<noteq> c) s)) else None)"

definition lastIndexOf :: "string \<Rightarrow> char \<Rightarrow> nat option" where
  "lastIndexOf s c =
     (if c \<in> set s then Some (length s - 1 - length (takeWhile (\<lambda>x. x \<noteq> c) (rev s))) else None)"

definition slice :: "string \<Rightarrow> nat \<Rightarrow> nat \<Rightarrow> string" where
  "slice s a b = take (b - a) (drop a s)"

text \<open>
  \<open>extractJson\<close>. The result \<open>JNull\<close> is JavaScript's \<open>null\<close>, returned when nothing parses (and
  when the winning text is the JSON \<open>null\<close>).
\<close>

definition extractJson :: "(string \<Rightarrow> json option) \<Rightarrow> string \<Rightarrow> json" where
  "extractJson parse txt =
     (case parse txt of
        Some j \<Rightarrow> j
      | None \<Rightarrow>
          (case (case matchCodeBlock txt of
                   None \<Rightarrow> None
                 | Some block \<Rightarrow> if block \<noteq> [] then parse block else None) of
             Some j \<Rightarrow> j
           | None \<Rightarrow>
               (case (indexOf txt CHR ''{'', lastIndexOf txt CHR ''}'') of
                  (Some firstCurly, Some lastCurly) \<Rightarrow>
                    if lastCurly > firstCurly
                    then (case parse (slice txt firstCurly (lastCurly + 1)) of
                            Some j \<Rightarrow> j
                          | None \<Rightarrow> JNull)
                    else JNull
                | _ \<Rightarrow> JNull)))"

text \<open>
  The zod schema \<open>z.object({moves: z.array(z.object({from, to, reason: z.string()})).optional()})\<close>:
  \<open>None\<close> is a failed parse, \<open>Some None\<close> a success without \<open>moves\<close>.
\<close>

definition jsonField :: "json \<Rightarrow> string \<Rightarrow> json option" where
  "jsonField j k = (case j of JObject fs \<Rightarrow> map_of fs k | _ \<Rightarrow> None)"

definition stringField :: "json \<Rightarrow> string \<Rightarrow> string option" where
  "stringField j k = (case jsonField j k of Some (JString s) \<Rightarrow> Some s | _ \<Rightarrow> None)"

definition parseMove :: "json \<Rightarrow> MoveOp option" where
  "parseMove j =
     (case (stringField j ''from'', stringField j ''to'', stringField j ''reason'') of
        (Some f, Some t, Some r) \<Rightarrow> Some \<lparr>from_path = f, to_path = t, reason = r\<rparr>
      | _ \<Rightarrow> None)"

definition safeParse :: "json \<Rightarrow> MoveOp list option option" where
  "safeParse j =
     (case j of
        JObject fs \<Rightarrow>
          (case map_of fs ''moves'' of
             None \<Rightarrow> Some None
           | Some (JArray xs) \<Rightarrow>
               (case those (map parseMove xs) of None \<Rightarrow> None | Some ms \<Rightarrow> Some (Some ms))
           | Some _ \<Rightarrow> None)
      | _ \<Rightarrow> None)"

text \<open>
  What the two services answer is not the program's: the environment holds the variables the
  program reads and, as functions of what is sent, the answers. The body of the organizer's
  answer is the JSON value that \<open>res.json()\<close> gives, \<open>None\<close> where it throws. The content of
  the model's answer is a string, a list of parts (the text of its first part if it has one,
  and the list as \<open>JSON.stringify\<close> prints it) or anything else (as \<open>String\<close> prints it).
  The program casts the body to \<open>{moves?: MoveOp[]}\<close> without a check and keeps a truthy
  \<open>moves\<close> as it is; \<open>asMoves\<close> is that value at the type \<open>MoveOp[]\<close> of the plan, and
  nothing is assumed of it.
\<close>

record fileSummary =
  s_name :: string
  s_path :: string
  s_type :: ntype
  s_ext :: "string option"
  s_size :: "int option"
  s_atimeDays :: "int option"

datatype fetchResult = FetchFails | Response bool "json option"

datatype rawContent = RawString string | RawParts "string option" string | RawOther string

datatype invokeResult = InvokeFails | Content rawContent

record llmEnv =
  env_LLM_BASE_URL :: "string option"
  env_GOOGLE_API_KEY :: "string option"
  env_GEMINI_MODEL :: "string option"
  fetch :: "string \<Rightarrow> string \<Rightarrow> fileSummary list \<Rightarrow> fetchResult"
  asMoves :: "json \<Rightarrow> MoveOp list"
  importsOk :: bool
  invoke :: "string \<Rightarrow> string \<Rightarrow> fileSummary list \<Rightarrow> invokeResult"
  JSON_parse :: "string \<Rightarrow> json option"

text \<open>
  The age in days as the program computes it everywhere:
  \<open>f.atimeMs ? Math.floor((now - f.atimeMs) / (1000 * 60 * 60 * 24)) : undefined\<close>; a missing
  and a zero time stamp are both falsy, and \<open>div\<close> on integers rounds down as \<open>Math.floor\<close> does.
\<close>

definition atimeDays :: "int \<Rightarrow> FileNode \<Rightarrow> int option" where
  "atimeDays now f =
     (case atimeMs f of
        None \<Rightarrow> None
      | Some a \<Rightarrow> if a = 0 then None else Some ((now - a) div (1000 * 60 * 60 * 24)))"

definition summarize :: "int \<Rightarrow> FileNode list \<Rightarrow> fileSummary list" where
  "summarize now files =
     map (\<lambda>f. \<lparr>s_name = name f, s_path = path f, s_type = type_n f, s_ext = ext f,
               s_size = size_n f, s_atimeDays = atimeDays now f\<rparr>)
       (take 500 files)"

definition contentText :: "rawContent \<Rightarrow> string" where
  "contentText raw =
     (case raw of
        RawString s \<Rightarrow> s
      | RawParts first printed \<Rightarrow> (case first of Some t \<Rightarrow> t | None \<Rightarrow> printed)
      | RawOther s \<Rightarrow> s)"

text \<open>
  \<open>tryLlmOrganize\<close>, in its two parts. The first is the block under \<open>if (llmBase)\<close>: the
  plan it returns, or \<open>None\<close> where the variable is not set or the \<open>catch\<close> is reached. The
  \<open>catch\<close> is reached when the call fails, when the status is not ok, when the body is not
  JSON, and when the body is \<open>null\<close>, on which \<open>data.moves\<close> throws a \<open>TypeError\<close>; on every
  other value \<open>data.moves\<close> is the field of an object and \<open>undefined\<close> elsewhere.
\<close>

definition organizerTier :: "llmEnv \<Rightarrow> int \<Rightarrow> FileNode list \<Rightarrow> string \<Rightarrow> Plan option" where
  "organizerTier env now files instructions =
     (case env_LLM_BASE_URL env of
        None \<Rightarrow> None
      | Some llmBase \<Rightarrow>
          if llmBase = [] then None
          else
            (case fetch env (llmBase @ ''/v1/organize'') instructions (summarize now files) of
               FetchFails \<Rightarrow> None
             | Response ok body \<Rightarrow>
                 if \<not> ok then None
                 else
                   (case body of
                      None \<Rightarrow> None
                    | Some JNull \<Rightarrow> None
                    | Some data \<Rightarrow>
                        (case jsonField data ''moves'' of
                           None \<Rightarrow> Some \<lparr>moves = [], deletions = []\<rparr>
                         | Some v \<Rightarrow>
                             if truthy v then Some \<lparr>moves = asMoves env v, deletions = []\<rparr>
                             else Some \<lparr>moves = [], deletions = []\<rparr>))))"

text \<open>
  The second part is the rest of the function: the generative model when \<open>GOOGLE_API_KEY\<close>
  is set. \<open>None\<close> is the \<open>null\<close> that sends the caller to its heuristic.
\<close>

definition modelTier :: "llmEnv \<Rightarrow> int \<Rightarrow> FileNode list \<Rightarrow> string \<Rightarrow> Plan option" where
  "modelTier env now files instructions =
     (case env_GOOGLE_API_KEY env of
        None \<Rightarrow> None
      | Some apiKey \<Rightarrow>
          if apiKey = [] then None
          else if \<not> importsOk env then None
          else
            (let modelName =
                   (case env_GEMINI_MODEL env of None \<Rightarrow> ''gemini-1.5-flash'' | Some m \<Rightarrow> m)
             in case invoke env modelName instructions (summarize now files) of
                  InvokeFails \<Rightarrow> None
                | Content raw \<Rightarrow>
                    (let j = extractJson (JSON_parse env) (contentText raw);
                         parsed = (if truthy j then safeParse j else None);
                         ms = (case parsed of Some (Some xs) \<Rightarrow> xs | _ \<Rightarrow> [])
                     in Some \<lparr>moves = ms, deletions = []\<rparr>)))"

definition tryLlmOrganize :: "llmEnv \<Rightarrow> int \<Rightarrow> FileNode list \<Rightarrow> string \<Rightarrow> Plan option" where
  "tryLlmOrganize env now files instructions =
     (case organizerTier env now files instructions of
        Some plan \<Rightarrow> Some plan
      | None \<Rightarrow> modelTier env now files instructions)"

text \<open>
  \<open>createPlanFromInstructions\<close>: one snapshot, then the services, then the heuristic.
\<close>

definition createPlanFromInstructions ::
  "config \<Rightarrow> llmEnv \<Rightarrow> fsnode \<Rightarrow> int \<Rightarrow> string \<Rightarrow> error + Plan" where
  "createPlanFromInstructions cfg env disk now instructions =
     (case buildTree cfg disk (DEMO_FS_PATH cfg) of
        Inl e \<Rightarrow> Inl e
      | Inr tree \<Rightarrow>
          (let files = flattenFiles tree
           in case tryLlmOrganize env now files instructions of
                Some llmPlan \<Rightarrow> Inr llmPlan
              | None \<Rightarrow> Inr \<lparr>moves = heuristicMoves files instructions, deletions = []\<rparr>))"

section \<open>The previewer\<close>

text \<open>
  \<open>afterPaths\<close> is the \<open>Map\<close> filled by \<open>afterPaths.set(m.from, m.to)\<close> in plan order, and
  \<open>mapPath\<close> is \<open>afterPaths.get(p) || p\<close>: an empty string is falsy.
\<close>

definition afterPaths :: "MoveOp list \<Rightarrow> (string \<rightharpoonup> string)" where
  "afterPaths ms = foldl (\<lambda>mp m. mp(from_path m \<mapsto> to_path m)) Map.empty ms"

definition mapPath :: "(string \<rightharpoonup> string) \<Rightarrow> string \<Rightarrow> string" where
  "mapPath mp p = (case mp p of None \<Rightarrow> p | Some t \<Rightarrow> if t = [] then p else t)"

fun cloneNode :: "(string \<rightharpoonup> string) \<Rightarrow> FileNode \<Rightarrow> FileNode" where
  "cloneNode mp (FileNode nm p t sz e ch a m) =
     (if t = Dir
      then FileNode nm p t sz e
             (Some (map (cloneNode mp) (case ch of None \<Rightarrow> [] | Some cs \<Rightarrow> cs))) a m
      else FileNode nm (mapPath mp p) t sz e ch a m)"

text \<open>
  \<open>previewPlan\<close>, with the file system it leaves: the one \<open>buildTree\<close> has read.
\<close>

definition previewPlan ::
  "config \<Rightarrow> kernel \<Rightarrow> fsnode \<Rightarrow> Plan \<Rightarrow> fsnode \<times> (error + FileNode \<times> FileNode)" where
  "previewPlan cfg K disk plan =
     (case buildTree cfg disk (DEMO_FS_PATH cfg) of
        Inl e \<Rightarrow> (disk, Inl e)
      | Inr beforeT \<Rightarrow>
          (readTree K disk (DEMO_FS_PATH cfg),
           Inr (beforeT, cloneNode (afterPaths (moves plan)) beforeT)))"

section \<open>The garbage detector\<close>

text \<open>
  Decimal numerals, as template strings print whole numbers: \<open>showDec\<close> for a number that is
  not negative, \<open>showInt\<close> for any.
\<close>

definition digitChar :: "int \<Rightarrow> char" where
  "digitChar d = char_of (48 + d)"

function showDec :: "int \<Rightarrow> string" where
  "showDec n = (if n < 10 then [digitChar n] else showDec (n div 10) @ [digitChar (n mod 10)])"
  by pat_completeness auto
termination
  by (relation "measure nat") auto

definition showInt :: "int \<Rightarrow> string" where
  "showInt i = (if i < 0 then CHR ''-'' # showDec (- i) else showDec i)"

text \<open>
  \<open>(size / (1024 * 1024)).toFixed(1)\<close>: the division by a power of two is exact, and
  \<open>toFixed\<close> takes the nearest tenth, the larger one at a tie.
\<close>

definition toFixed1MB :: "int \<Rightarrow> string" where
  "toFixed1MB sz =
     (let tenths = (sz * 10 * 2 + 1024 * 1024) div (2 * (1024 * 1024))
      in showDec (tenths div 10) @ ''.'' @ showDec (tenths mod 10))"

definition endsWith :: "string \<Rightarrow> string \<Rightarrow> bool" where
  "endsWith s p = startsWith (rev s) (rev p)"

text \<open>\<open>file.atimeMs ? Math.floor((now - file.atimeMs) / (1000 * 60 * 60 * 24)) : 0\<close>.\<close>

definition ageDays :: "int \<Rightarrow> FileNode \<Rightarrow> int" where
  "ageDays now f = (case atimeDays now f of None \<Rightarrow> 0 | Some d \<Rightarrow> d)"

definition lowerExt :: "FileNode \<Rightarrow> string" where
  "lowerExt f = toLowerCase (case ext f of None \<Rightarrow> [] | Some x \<Rightarrow> x)"

text \<open>
  The first rule's test:
  \<open>['tmp', 'log', 'cache', 'bak', 'old'].includes(ext) || /(^~|\.DS_Store$)/.test(file.name)\<close>.
\<close>

definition isJunk :: "FileNode \<Rightarrow> bool" where
  "isJunk f =
     (lowerExt f \<in> set [''tmp'', ''log'', ''cache'', ''bak'', ''old'']
      \<or> startsWith (name f) ''~'' \<or> endsWith (name f) ''.DS_Store'')"

definition junkSuggestion :: "int \<Rightarrow> FileNode \<Rightarrow> DeleteSuggestion" where
  "junkSuggestion now f =
     \<lparr>file_d = path f,
      reason_d = ''Temporary or system artifact ('' @ (if lowerExt f \<noteq> [] then lowerExt f else name f)
            @ ''), last accessed '' @ showInt (ageDays now f) @ '' days ago'',
      confidence = High, sizeBytes = size_n f, safeToDelete = True\<rparr>"

text \<open>The second rule: \<open>file.size && file.size > 50 * 1024 * 1024 && ageDays > 90\<close>.\<close>

definition isStaleLarge :: "int \<Rightarrow> FileNode \<Rightarrow> bool" where
  "isStaleLarge now f =
     (case size_n f of
        None \<Rightarrow> False
      | Some sz \<Rightarrow> sz \<noteq> 0 \<and> sz > 50 * 1024 * 1024 \<and> ageDays now f > 90)"

definition largeSuggestion :: "int \<Rightarrow> FileNode \<Rightarrow> DeleteSuggestion" where
  "largeSuggestion now f =
     \<lparr>file_d = path f,
      reason_d = ''Large file ('' @ toFixed1MB (case size_n f of None \<Rightarrow> 0 | Some sz \<Rightarrow> sz)
            @ '' MB) rarely accessed ('' @ showInt (ageDays now f) @ '' days)'',
      confidence = Medium, sizeBytes = size_n f, safeToDelete = False\<rparr>"

text \<open>The third rule's gate: \<open>file.size && file.size < 20 * 1024 * 1024\<close>.\<close>

definition isHashed :: "FileNode \<Rightarrow> bool" where
  "isHashed f = (case size_n f of None \<Rightarrow> False | Some sz \<Rightarrow> sz \<noteq> 0 \<and> sz < 20 * 1024 * 1024)"

text \<open>
  \<open>hashFile\<close>: the SHA-1 digest of the content read at the path. The digest function is a
  parameter. The stream fails where the path cannot be opened, and where it is a directory,
  which opens and cannot be read.
\<close>

definition hashFile :: "(string \<Rightarrow> string) \<Rightarrow> fsnode \<Rightarrow> string \<Rightarrow> error + string" where
  "hashFile sha1 disk absPath =
     (case stat disk absPath of
        None \<Rightarrow> Inl (SystemError (missing (pathSegs absPath) disk) ''open'' (Some absPath))
      | Some (FsDir st es) \<Rightarrow> Inl (SystemError EISDIR ''read'' None)
      | Some (FsFile st c) \<Rightarrow> Inr (sha1 c))"

text \<open>
  \<open>hashToFile\<close> is an object whose keys are digests: its values are listed in the order the
  keys were first stored (a digest of forty hexadecimal digits is never an array index).
  \<open>hashToFile[hash] = hashToFile[hash] || []; hashToFile[hash].push(p)\<close>:
\<close>

fun pushHash :: "string \<Rightarrow> string \<Rightarrow> (string \<times> string list) list \<Rightarrow> (string \<times> string list) list" where
  "pushHash h p [] = [(h, [p])]"
| "pushHash h p ((k, ps) # g) = (if k = h then (k, ps @ [p]) # g else (k, ps) # pushHash h p g)"

text \<open>The first loop of \<open>detectGarbage\<close>, with its \<open>continue\<close> after a junk artifact.\<close>

fun scanFiles ::
  "config \<Rightarrow> (string \<Rightarrow> string) \<Rightarrow> fsnode \<Rightarrow> int \<Rightarrow> FileNode list \<Rightarrow>
   DeleteSuggestion list \<times> (string \<times> string list) list \<Rightarrow>
   error + DeleteSuggestion list \<times> (string \<times> string list) list" where
  "scanFiles cfg sha1 disk now [] acc = Inr acc"
| "scanFiles cfg sha1 disk now (f # fs) (suggestions, hashToFile) =
     (case sanitizePath cfg (path f) of
        Inl e \<Rightarrow> Inl e
      | Inr absPath \<Rightarrow>
          if isJunk f
          then scanFiles cfg sha1 disk now fs (suggestions @ [junkSuggestion now f], hashToFile)
          else
            (let suggestions' =
                   (if isStaleLarge now f then suggestions @ [largeSuggestion now f]
                    else suggestions)
             in if isHashed f
                then (case hashFile sha1 disk absPath of
                        Inl e \<Rightarrow> Inl e
                      | Inr h \<Rightarrow>
                          scanFiles cfg sha1 disk now fs
                            (suggestions', pushHash h (path f) hashToFile))
                else scanFiles cfg sha1 disk now fs (suggestions', hashToFile)))"

text \<open>The second loop: in every group of more than one path, all paths but the first.\<close>

definition duplicateSuggestions :: "(string \<times> string list) list \<Rightarrow> DeleteSuggestion list" where
  "duplicateSuggestions hashToFile =
     concat (map (\<lambda>(h, files).
        if length files > 1
        then map (\<lambda>p. \<lparr>file_d = p,
                        reason_d = ''Duplicate of '' @ files ! 0 @ '' (same content hash)'',
                        confidence = High, sizeBytes = None, safeToDelete = True\<rparr>)
               (drop 1 files)
        else []) hashToFile)"

text \<open>\<open>detectGarbage\<close> from the snapshot on, and as a whole.\<close>

definition detectFrom ::
  "config \<Rightarrow> (string \<Rightarrow> string) \<Rightarrow> fsnode \<Rightarrow> int \<Rightarrow> FileNode \<Rightarrow> error + DeleteSuggestion list" where
  "detectFrom cfg sha1 disk now tree =
     (case scanFiles cfg sha1 disk now (flattenFiles tree) ([], []) of
        Inl e \<Rightarrow> Inl e
      | Inr (suggestions, hashToFile) \<Rightarrow> Inr (suggestions @ duplicateSuggestions hashToFile))"

definition detectGarbage ::
  "config \<Rightarrow> (string \<Rightarrow> string) \<Rightarrow> fsnode \<Rightarrow> int \<Rightarrow> error + DeleteSuggestion list" where
  "detectGarbage cfg sha1 disk now =
     (case buildTree cfg disk (DEMO_FS_PATH cfg) of
        Inl e \<Rightarrow> Inl e
      | Inr tree \<Rightarrow> detectFrom cfg sha1 disk now tree)"

section \<open>The applier\<close>

text \<open>
  \<open>path.posix.dirname\<close>: the text before the last separator that is not a trailing one.
\<close>

definition dirname :: "string \<Rightarrow> string" where
  "dirname p =
     (case p of
        [] \<Rightarrow> ''.''
      | c # cs \<Rightarrow>
          (let r = dropWhile (\<lambda>x. x \<noteq> CHR ''/'') (dropWhile (\<lambda>x. x = CHR ''/'') (rev cs))
           in if r = [] then (if c = CHR ''/'' then ''/'' else ''.'')
              else if c = CHR ''/'' \<and> length r = 1 then ''//''
              else take (length r) p))"

text \<open>
  The stats of a directory just made, and the stats of a directory in which an entry has been
  made, taken out or put in: its modification time is the clock's.
\<close>

definition newDirStats :: "kernel \<Rightarrow> stats" where
  "newDirStats K = \<lparr>st_size = dirSize K, st_atimeMs = clock K, st_mtimeMs = clock K\<rparr>"

definition touchMtime :: "kernel \<Rightarrow> stats \<Rightarrow> stats" where
  "touchMtime K st = st\<lparr>st_mtimeMs := clock K\<rparr>"

text \<open>
  \<open>fs.mkdir(dir, {recursive: true})\<close>, which is what \<open>fse.ensureDir\<close> calls: the directories
  missing on the way are made, each listed last in its parent. A regular file on the way is
  \<open>ENOTDIR\<close>, a regular file at the end of the way is \<open>EEXIST\<close>, and nothing is made then.
\<close>

fun mkdirp :: "kernel \<Rightarrow> string list \<Rightarrow> fsnode \<Rightarrow> errno + fsnode" where
  "mkdirp K [] (FsFile st c) = Inl EEXIST"
| "mkdirp K [] (FsDir st es) = Inr (FsDir st es)"
| "mkdirp K (s # ss) (FsFile st c) = Inl ENOTDIR"
| "mkdirp K (s # ss) (FsDir st es) =
     (case map_of es s of
        None \<Rightarrow>
          (case mkdirp K ss (FsDir (newDirStats K) []) of
             Inl e \<Rightarrow> Inl e
           | Inr c' \<Rightarrow> Inr (FsDir (touchMtime K st) (es @ [(s, c')])))
      | Some c \<Rightarrow>
          (case mkdirp K ss c of
             Inl e \<Rightarrow> Inl e
           | Inr c' \<Rightarrow> Inr (FsDir st (AList.update s c' es))))"

definition ensureDir :: "kernel \<Rightarrow> fsnode \<Rightarrow> string \<Rightarrow> error + fsnode" where
  "ensureDir K disk dir =
     (case mkdirp K (pathSegs dir) disk of
        Inl en \<Rightarrow> Inl (SystemError en ''mkdir'' (Some dir))
      | Inr d \<Rightarrow> Inr d)"

text \<open>
  \<open>fs.rename\<close> in its two halves: the entry at a path is taken out of its directory, and a
  node is put at a free path, listed last in its directory.
\<close>

fun removeFs :: "kernel \<Rightarrow> string list \<Rightarrow> fsnode \<Rightarrow> fsnode" where
  "removeFs K [] n = n"
| "removeFs K [s] n =
     (case n of FsFile st c \<Rightarrow> n | FsDir st es \<Rightarrow> FsDir (touchMtime K st) (AList.delete s es))"
| "removeFs K (s # s' # ss) n =
     (case n of
        FsFile st c \<Rightarrow> n
      | FsDir st es \<Rightarrow> FsDir st (AList.map_entry s (\<lambda>c. removeFs K (s' # ss) c) es))"

fun insertFs :: "kernel \<Rightarrow> string list \<Rightarrow> fsnode \<Rightarrow> fsnode \<Rightarrow> fsnode" where
  "insertFs K [] new n = n"
| "insertFs K [s] new n =
     (case n of FsFile st c \<Rightarrow> n | FsDir st es \<Rightarrow> FsDir (touchMtime K st) (es @ [(s, new)]))"
| "insertFs K (s # s' # ss) new n =
     (case n of
        FsFile st c \<Rightarrow> n
      | FsDir st es \<Rightarrow> FsDir st (AList.map_entry s (\<lambda>c. insertFs K (s' # ss) new c) es))"

definition isDirectory :: "fsnode \<Rightarrow> bool" where
  "isDirectory n = (case n of FsFile st c \<Rightarrow> False | FsDir st es \<Rightarrow> True)"

text \<open>A path between single quotes, as the messages print it.\<close>

definition quoted :: "string \<Rightarrow> string" where
  "quoted s = [CHR 0x27] @ s @ [CHR 0x27]"

definition cannotMove :: "string \<Rightarrow> string \<Rightarrow> string" where
  "cannotMove src dest =
     ''Cannot move '' @ quoted src @ '' to a subdirectory of itself, '' @ quoted dest @ ''.''"

text \<open>
  \<open>fse.move(src, dest, {overwrite: false})\<close>, as fs-extra has it from version 10 on, on one
  device. \<open>lstat\<close> looks at the source and at the destination; the error of a source that is
  not found is thrown, and so is that of a destination below a regular file. A destination
  that exists is refused: as the path of the source itself, as a directory for a file or a
  file for a directory, as a directory inside the source, and in every other case with
  \<open>dest already exists.\<close> A destination inside the source directory is refused too.
  Otherwise the parent of the destination is made and the node is renamed. A move that
  fails leaves the file system as it is.
\<close>

definition move :: "kernel \<Rightarrow> fsnode \<Rightarrow> string \<Rightarrow> string \<Rightarrow> error + fsnode" where
  "move K disk src dest =
     (let s = pathSegs src; d = pathSegs dest
      in case lookupFs s disk of
           None \<Rightarrow> Inl (SystemError (missing s disk) ''lstat'' (Some src))
         | Some n \<Rightarrow>
             (case lookupFs d disk of
                Some n' \<Rightarrow>
                  if s = d then Inl (FsExtraError ''Source and destination must not be the same.'')
                  else if isDirectory n \<and> \<not> isDirectory n' then
                    Inl (FsExtraError (''Cannot overwrite non-directory '' @ quoted dest
                           @ '' with directory '' @ quoted src @ ''.''))
                  else if \<not> isDirectory n \<and> isDirectory n' then
                    Inl (FsExtraError (''Cannot overwrite directory '' @ quoted dest
                           @ '' with non-directory '' @ quoted src @ ''.''))
                  else if isDirectory n \<and> prefix s d then Inl (FsExtraError (cannotMove src dest))
                  else Inl (FsExtraError ''dest already exists.'')
              | None \<Rightarrow>
                  if missing d disk = ENOTDIR then Inl (SystemError ENOTDIR ''lstat'' (Some dest))
                  else if isDirectory n \<and> prefix s d then Inl (FsExtraError (cannotMove src dest))
                  else
                    (case mkdirp K (butlast d) disk of
                       Inl en \<Rightarrow> Inl (SystemError en ''mkdir'' (Some (dirname dest)))
                     | Inr disk1 \<Rightarrow> Inr (insertFs K d n (removeFs K s disk1)))))"

text \<open>One turn of the loop of \<open>applyPlan\<close>, with the file system it leaves.\<close>

definition applyMove :: "config \<Rightarrow> kernel \<Rightarrow> fsnode \<Rightarrow> MoveOp \<Rightarrow> fsnode \<times> error option" where
  "applyMove cfg K disk m =
     (case sanitizePath cfg (from_path m) of
        Inl e \<Rightarrow> (disk, Some e)
      | Inr fromAbs \<Rightarrow>
          (case sanitizePath cfg (to_path m) of
             Inl e \<Rightarrow> (disk, Some e)
           | Inr toAbs \<Rightarrow>
               (case ensureDir K disk (dirname toAbs) of
                  Inl e \<Rightarrow> (disk, Some e)
                | Inr disk1 \<Rightarrow>
                    (case move K disk1 fromAbs toAbs of
                       Inl e \<Rightarrow> (disk1, Some e)
                     | Inr disk2 \<Rightarrow> (disk2, None)))))"

text \<open>
  The loop, with the local variable \<open>moved\<close>: the result is the file system, the value of
  \<open>moved\<close> when the loop stops, and the error that stopped it, if any.
\<close>

fun applyMoves ::
  "config \<Rightarrow> kernel \<Rightarrow> fsnode \<Rightarrow> nat \<Rightarrow> MoveOp list \<Rightarrow> fsnode \<times> nat \<times> error option" where
  "applyMoves cfg K disk moved [] = (disk, moved, None)"
| "applyMoves cfg K disk moved (m # ms) =
     (case applyMove cfg K disk m of
        (disk', Some e) \<Rightarrow> (disk', moved, Some e)
      | (disk', None) \<Rightarrow> applyMoves cfg K disk' (moved + 1) ms)"

text \<open>
  \<open>applyPlan\<close>: \<open>return { moved }\<close> when the loop ends, and the error alone when a call
  throws (the local \<open>moved\<close> is then lost).
\<close>

definition applyPlan :: "config \<Rightarrow> kernel \<Rightarrow> fsnode \<Rightarrow> Plan \<Rightarrow> fsnode \<times> (error + nat)" where
  "applyPlan cfg K disk plan =
     (case applyMoves cfg K disk 0 (moves plan) of
        (disk', moved, None) \<Rightarrow> (disk', Inr moved)
      | (disk', moved, Some e) \<Rightarrow> (disk', Inl e))"

section \<open>The plan store and the route that applies\<close>






section \<open>Notions the properties are stated with\<close>

text \<open>
  The name of a directory entry: not empty, without a separator, and neither \<open>.\<close> nor \<open>..\<close>.
  Every name a snapshot holds is one (it is the base name of an entry \<open>readdir\<close> listed).
\<close>

definition plainName :: "string \<Rightarrow> bool" where
  "plainName nm = (nm \<noteq> [] \<and> CHR ''/'' \<notin> set nm \<and> nm \<noteq> ''.'' \<and> nm \<noteq> ''..'')"

text \<open>
  The extraction of JSON as the specification words it: an ordered list of strategies, each
  succeeding or failing, combined by a combinator that returns the first success. The
  strategies are the whole response, the content of a fenced code block, and the widest
  \<open>{...}\<close> substring, which is what is left of the text when everything before its first
  \<open>{\<close> and everything after its last \<open>}\<close> is cut away.

  The content of a fenced code block is the text between an opening fence and the next
  closing fence. \<open>spec_fencedAny\<close> takes for the opening fence the first fence of the text,
  whatever follows it. \<open>spec_fencedJson\<close> takes the first fence followed by \<open>json\<close>, in any
  letter case, and leaves out the white space after it.
\<close>

fun spec_firstSuccess :: "('a \<Rightarrow> 'b option) list \<Rightarrow> 'a \<Rightarrow> 'b option" where
  "spec_firstSuccess [] x = None"
| "spec_firstSuccess (s # ss) x = (case s x of Some r \<Rightarrow> Some r | None \<Rightarrow> spec_firstSuccess ss x)"

definition spec_wholeResponse :: "(string \<Rightarrow> json option) \<Rightarrow> string \<Rightarrow> json option" where
  "spec_wholeResponse parse txt = parse txt"

text \<open>The text after the first place where \<open>p\<close> starts (compared by \<open>eq\<close>), if any.\<close>

fun afterFirst :: "(string \<Rightarrow> string \<Rightarrow> bool) \<Rightarrow> string \<Rightarrow> string \<Rightarrow> string option" where
  "afterFirst eq p [] = (if eq [] p then Some (drop (length p) []) else None)"
| "afterFirst eq p (c # cs) =
     (if eq (c # cs) p then Some (drop (length p) (c # cs)) else afterFirst eq p cs)"

text \<open>The text before the first place where \<open>p\<close> starts, if any.\<close>

fun beforeFirst :: "string \<Rightarrow> string \<Rightarrow> string option" where
  "beforeFirst p [] = (if startsWith [] p then Some [] else None)"
| "beforeFirst p (c # cs) =
     (if startsWith (c # cs) p then Some []
      else (case beforeFirst p cs of None \<Rightarrow> None | Some b \<Rightarrow> Some (c # b)))"

definition spec_fencedAny :: "string \<Rightarrow> string option" where
  "spec_fencedAny txt =
     (case afterFirst startsWith fence txt of
        None \<Rightarrow> None
      | Some rest \<Rightarrow> beforeFirst fence rest)"

definition spec_fencedJson :: "string \<Rightarrow> string option" where
  "spec_fencedJson txt =
     (case afterFirst startsWithCI (fence @ ''json'') txt of
        None \<Rightarrow> None
      | Some rest \<Rightarrow> beforeFirst fence (dropWhile isSpace rest))"

definition spec_block :: "(string \<Rightarrow> string option) \<Rightarrow> (string \<Rightarrow> json option) \<Rightarrow> string \<Rightarrow> json option" where
  "spec_block content parse txt = (case content txt of None \<Rightarrow> None | Some block \<Rightarrow> parse block)"

definition spec_widest :: "string \<Rightarrow> string" where
  "spec_widest txt =
     rev (dropWhile (\<lambda>c. c \<noteq> CHR ''}'') (rev (dropWhile (\<lambda>c. c \<noteq> CHR ''{'') txt)))"

definition spec_widestBraces :: "(string \<Rightarrow> json option) \<Rightarrow> string \<Rightarrow> json option" where
  "spec_widestBraces parse txt = (if spec_widest txt = [] then None else parse (spec_widest txt))"

text \<open>
  The three strategies in their order, with the fenced block of the second one given.
\<close>

definition spec_strategies ::
  "(string \<Rightarrow> string option) \<Rightarrow> (string \<Rightarrow> json option) \<Rightarrow> (string \<Rightarrow> json option) list" where
  "spec_strategies content parse =
     [spec_wholeResponse parse, spec_block content parse, spec_widestBraces parse]"

text \<open>
  The preview as the specification words it: a structural clone in which the path of every
  file leaf is rewritten and a directory is cloned with its children, otherwise unchanged.
  The mapping of a plan sends a path to the target of the last move that starts from it.
  \<open>spec_rewrite\<close> is the rewriting of the claim (identity where no move mentions the path);
  \<open>preview_rewrite\<close> is also the identity where the target found is the empty string.
\<close>

fun spec_relabel :: "(string \<Rightarrow> string) \<Rightarrow> FileNode \<Rightarrow> FileNode" where
  "spec_relabel g (FileNode nm p t sz e ch a m) =
     (case t of
        File \<Rightarrow> FileNode nm (g p) t sz e ch a m
      | Dir \<Rightarrow> FileNode nm p t sz e (map_option (map (spec_relabel g)) ch) a m)"

definition spec_mapping :: "MoveOp list \<Rightarrow> string \<Rightarrow> string option" where
  "spec_mapping ms p = map_option to_path (find (\<lambda>m. from_path m = p) (rev ms))"

definition spec_rewrite :: "MoveOp list \<Rightarrow> string \<Rightarrow> string" where
  "spec_rewrite ms p = (case spec_mapping ms p of None \<Rightarrow> p | Some t \<Rightarrow> t)"

definition preview_rewrite :: "MoveOp list \<Rightarrow> string \<Rightarrow> string" where
  "preview_rewrite ms p = (case spec_mapping ms p of None \<Rightarrow> p | Some t \<Rightarrow> if t = [] then p else t)"

text \<open>
  A file system and a snapshot without the access times of their directories, which are what
  listing a directory may move.
\<close>

fun fsNoAtime :: "fsnode \<Rightarrow> fsnode" where
  "fsNoAtime (FsFile st c) = FsFile st c"
| "fsNoAtime (FsDir st es) =
     FsDir (st\<lparr>st_atimeMs := 0\<rparr>) (map (\<lambda>(ent, c). (ent, fsNoAtime c)) es)"

fun nodeNoAtime :: "FileNode \<Rightarrow> FileNode" where
  "nodeNoAtime (FileNode nm p t sz e ch a m) =
     (case t of
        File \<Rightarrow> FileNode nm p t sz e ch a m
      | Dir \<Rightarrow> FileNode nm p t sz e (map_option (map nodeNoAtime) ch) (map_option (\<lambda>x. 0) a) m)"

text \<open>
  The garbage detector, taken apart. \<open>ruleSuggestions\<close> are the suggestions of the first loop
  (a junk artifact, or else a stale large file). \<open>hashedFiles\<close> are the files the first loop
  hashes, \<open>digest\<close> is the digest it computes for one of them, \<open>hashPairs\<close> and \<open>pushAll\<close>
  are what it pushes into \<open>hashToFile\<close>, and \<open>hashGroup\<close> is the group of a digest: the paths
  of the hashed files with that digest, in flattening order. \<open>duplicateOf\<close> is the suggestion
  of the second loop.
\<close>

fun ruleSuggestions :: "int \<Rightarrow> FileNode list \<Rightarrow> DeleteSuggestion list" where
  "ruleSuggestions now [] = []"
| "ruleSuggestions now (f # fs) =
     (if isJunk f then [junkSuggestion now f]
      else if isStaleLarge now f then [largeSuggestion now f]
      else [])
     @ ruleSuggestions now fs"

definition hashedFiles :: "FileNode list \<Rightarrow> FileNode list" where
  "hashedFiles fs = filter (\<lambda>f. \<not> isJunk f \<and> isHashed f) fs"

definition digestOf :: "config \<Rightarrow> (string \<Rightarrow> string) \<Rightarrow> fsnode \<Rightarrow> FileNode \<Rightarrow> error + string" where
  "digestOf cfg sha1 disk f =
     (case sanitizePath cfg (path f) of Inl e \<Rightarrow> Inl e | Inr absPath \<Rightarrow> hashFile sha1 disk absPath)"

definition digest :: "config \<Rightarrow> (string \<Rightarrow> string) \<Rightarrow> fsnode \<Rightarrow> FileNode \<Rightarrow> string" where
  "digest cfg sha1 disk f = (case digestOf cfg sha1 disk f of Inl e \<Rightarrow> [] | Inr h \<Rightarrow> h)"

definition hashGroup ::
  "config \<Rightarrow> (string \<Rightarrow> string) \<Rightarrow> fsnode \<Rightarrow> FileNode list \<Rightarrow> string \<Rightarrow> string list" where
  "hashGroup cfg sha1 disk fs h =
     map path (filter (\<lambda>f. digest cfg sha1 disk f = h) (hashedFiles fs))"

definition duplicateOf :: "string \<Rightarrow> string \<Rightarrow> DeleteSuggestion" where
  "duplicateOf p orig =
     \<lparr>file_d = p, reason_d = ''Duplicate of '' @ orig @ '' (same content hash)'',
      confidence = High, sizeBytes = None, safeToDelete = True\<rparr>"

definition pushAll :: "(string \<times> string) list \<Rightarrow> (string \<times> string list) list \<Rightarrow> (string \<times> string list) list" where
  "pushAll ps g = foldl (\<lambda>g hp. pushHash (fst hp) (snd hp) g) g ps"

definition hashPairs :: "config \<Rightarrow> (string \<Rightarrow> string) \<Rightarrow> fsnode \<Rightarrow> FileNode list \<Rightarrow> (string \<times> string) list" where
  "hashPairs cfg sha1 disk fs = map (\<lambda>f. (digest cfg sha1 disk f, path f)) (hashedFiles fs)"




section \<open>Values for the examples\<close>

text \<open>
  A configuration whose sandbox root is \<open>/fs\<close>, an environment with neither service
  configured (its \<open>asMoves\<close> reads an array of well-formed moves), a kernel whose clock shows
  7000 and which moves the access time of every directory listed to the clock, and file
  systems built from files (size, access time, content) and directories.
\<close>

definition cfg0 :: config where
  "cfg0 = \<lparr>cwd = ''/app'', env_DEMO_FS_PATH = Some ''/fs''\<rparr>"

definition readMoves :: "json \<Rightarrow> MoveOp list" where
  "readMoves v =
     (case v of
        JArray xs \<Rightarrow> (case those (map parseMove xs) of Some ms \<Rightarrow> ms | None \<Rightarrow> [])
      | _ \<Rightarrow> [])"

definition envOff :: llmEnv where
  "envOff = \<lparr>env_LLM_BASE_URL = None, env_GOOGLE_API_KEY = None, env_GEMINI_MODEL = None,
             fetch = (\<lambda>url ins fs. FetchFails), asMoves = readMoves, importsOk = True,
             invoke = (\<lambda>model ins fs. InvokeFails), JSON_parse = (\<lambda>s. None)\<rparr>"

definition fileOf :: "int \<Rightarrow> int \<Rightarrow> string \<Rightarrow> fsnode" where
  "fileOf sz atime content = FsFile \<lparr>st_size = sz, st_atimeMs = atime, st_mtimeMs = atime\<rparr> content"

definition dirOf :: "(string \<times> fsnode) list \<Rightarrow> fsnode" where
  "dirOf es = FsDir \<lparr>st_size = 4096, st_atimeMs = 1000, st_mtimeMs = 1000\<rparr> es"

definition kernel0 :: kernel where
  "kernel0 = \<lparr>clock = 7000, readTime = (\<lambda>st. 7000), dirSize = 4096\<rparr>"

definition diskReport :: fsnode where
  "diskReport = dirOf [(''fs'', dirOf [(''report.pdf'', fileOf 10 1000 ''%PDF'')])]"

text \<open>
  A \<open>JSON.parse\<close> for the examples: it knows the texts of the values \<open>{}\<close> and \<open>[]\<close>, with
  the white space that JSON allows between their tokens (space, tab, line feed, carriage
  return), and throws on every other text.
\<close>

definition parseTiny :: "string \<Rightarrow> json option" where
  "parseTiny s =
     (let t = filter (\<lambda>c. of_char c \<notin> set [9, 10, 13, 32 :: nat]) s
      in if t = ''{}'' then Some (JObject [])
         else if t = ''[]'' then Some (JArray [])
         else None)"

text \<open>
  An environment where only the generative model is configured and answers with the given
  text, and one where only the organizer is configured and answers with status ok and the
  given body.
\<close>

definition envModel :: "string \<Rightarrow> llmEnv" where
  "envModel answer =
     \<lparr>env_LLM_BASE_URL = None, env_GOOGLE_API_KEY = Some ''key'', env_GEMINI_MODEL = None,
      fetch = (\<lambda>url ins fs. FetchFails), asMoves = readMoves, importsOk = True,
      invoke = (\<lambda>model ins fs. Content (RawString answer)),
      JSON_parse = parseTiny\<rparr>"

definition envOrganizer :: "json option \<Rightarrow> llmEnv" where
  "envOrganizer body =
     \<lparr>env_LLM_BASE_URL = Some ''http://llm:8000'', env_GOOGLE_API_KEY = None,
      env_GEMINI_MODEL = None,
      fetch = (\<lambda>url ins fs. if url = ''http://llm:8000/v1/organize'' then Response True body
                              else FetchFails),
      asMoves = readMoves, importsOk = True,
      invoke = (\<lambda>model ins fs. InvokeFails),
      JSON_parse = parseTiny\<rparr>"

text \<open>
  File systems for the garbage detector: two files with the same content; two junk
  artifacts with the same content beside two empty files; a file and a junk artifact with the
  same content; and \<open>notes.bak\<close> last accessed at the epoch. In the examples the digest of
  a content is the content itself.
\<close>

definition twinA :: FileNode where
  "twinA = FileNode ''a.txt'' ''/a.txt'' File (Some 5) (Some ''txt'') None (Some 1000) (Some 1000)"

definition twinB :: FileNode where
  "twinB = FileNode ''b.txt'' ''/b.txt'' File (Some 5) (Some ''txt'') None (Some 2000) (Some 2000)"

definition twinsTree :: FileNode where
  "twinsTree = FileNode ''fs'' ''/'' Dir None None (Some [twinA, twinB]) (Some 1000) (Some 1000)"

definition diskTwins :: fsnode where
  "diskTwins = dirOf [(''fs'', dirOf [(''a.txt'', fileOf 5 1000 ''hello''),
                                      (''b.txt'', fileOf 5 2000 ''hello'')])]"

definition diskJunkTwins :: fsnode where
  "diskJunkTwins = dirOf [(''fs'', dirOf [(''a.bak'', fileOf 5 1000 ''hello''),
                                          (''b.bak'', fileOf 5 1000 ''hello''),
                                          (''e1.txt'', fileOf 0 1000 []),
                                          (''e2.txt'', fileOf 0 1000 [])])]"

definition diskJunkCopy :: fsnode where
  "diskJunkCopy = dirOf [(''fs'', dirOf [(''x.txt'', fileOf 5 1000 ''hello''),
                                         (''y.bak'', fileOf 5 1000 ''hello'')])]"

definition diskBak :: fsnode where
  "diskBak = dirOf [(''fs'', dirOf [(''notes.bak'', fileOf 5 0 ''draft'')])]"



section \<open>Properties\<close>

subsection \<open>The path sandbox\<close>

text \<open>
  What \<open>sanitizePath\<close> checks: the resolved, normalized target, against the resolved root,
  as strings.
\<close>

lemma sanitizePath_Inr_iff:
  "sanitizePath cfg rel = Inr t \<longleftrightarrow>
     t = path_resolve (cwd cfg) [safeRoot cfg, ''.'' @ rel] \<and> startsWith t (safeRoot cfg)"
  by (auto simp: sanitizePath_def Let_def)

text \<open>
  C1. Every path that resolves outside the sandbox root is rejected with
  \<open>PathEscapeError\<close>. The program breaks this: with the default root
  \<open>/app/data/demo_fs\<close>, the path \<open>/../demo_fs2/x\<close> resolves to \<open>/app/data/demo_fs2/x\<close>, in a
  sibling directory whose name starts with the root's name; \<open>startsWith\<close> accepts it, and it
  is neither the root nor a descendant of it.
\<close>

theorem sanitizePath_accepts_sibling:
  "safeRoot \<lparr>cwd = ''/app'', env_DEMO_FS_PATH = None\<rparr> = ''/app/data/demo_fs'' \<and>
   sanitizePath \<lparr>cwd = ''/app'', env_DEMO_FS_PATH = None\<rparr> ''/../demo_fs2/x''
     = Inr ''/app/data/demo_fs2/x'' \<and>
   \<not> isInside ''/app/data/demo_fs'' ''/app/data/demo_fs2/x''"
  by code_simp

subsection \<open>The heuristic classifier\<close>

lemma splitOn_not_Nil: "splitOn c s \<noteq> []"
  by (induction s) (auto split: list.splits)

lemma splitOn_Cons:
  "splitOn c (x # xs) =
     (if x = c then [] # splitOn c xs else (x # hd (splitOn c xs)) # tl (splitOn c xs))"
  using splitOn_not_Nil [of c xs] by (cases "splitOn c xs") auto

lemma splitOn_no_sep: "c \<notin> set s \<Longrightarrow> splitOn c s = [s]"
  by (induction s) auto

lemma path_join_demo:
  assumes "plainName nm"
    and "cat \<in> {''Code'', ''Documents'', ''Images'', ''Archives'', ''Data'', ''Misc''}"
  shows "path_join [''/demo'', cat, nm] = ''/demo/'' @ cat @ ''/'' @ nm"
proof -
  from assms(1) have nm: "nm \<noteq> []" "CHR ''/'' \<notin> set nm" "nm \<noteq> ''.''" "nm \<noteq> ''..''"
    by (auto simp: plainName_def)
  have l: "last nm \<noteq> CHR ''/''" using nm(1,2) last_in_set by metis
  have s: "splitOn CHR ''/'' nm = [nm]" using nm(2) by (rule splitOn_no_sep)
  from assms(2) show ?thesis
    using nm l
    by (auto simp: path_join_def path_normalize_def isAbsolute_def normalizeString_def
        splitOn_Cons s)
qed

lemma decideCategory_table:
  "decideCategory f ins =
     (if lowerExt f \<in> {''ts'', ''tsx'', ''js'', ''jsx'', ''py'', ''go'', ''java'', ''rb''} then ''Code''
      else if lowerExt f \<in> {''md'', ''txt'', ''pdf'', ''doc'', ''docx''} then ''Documents''
      else if lowerExt f \<in> {''png'', ''jpg'', ''jpeg'', ''gif'', ''webp'', ''svg''} then ''Images''
      else if lowerExt f \<in> {''zip'', ''tar'', ''gz'', ''rar'', ''7z''} then ''Archives''
      else if lowerExt f \<in> {''csv'', ''json'', ''xlsx''} then ''Data''
      else ''Misc'')"
  by (simp add: decideCategory_def lowerExt_def)

lemma decideCategory_cases:
  "decideCategory f ins \<in> {''Code'', ''Documents'', ''Images'', ''Archives'', ''Data'', ''Misc''}"
  unfolding decideCategory_table by simp

text \<open>
  C5, as the program has it. The heuristic maps each file by its extension to a category and
  targets the path \<open>/demo/<category>/<name>\<close>, which is relative to the sandbox root (the
  directory \<open>demo\<close> under the root, not the root itself); it emits a move exactly when the
  file is not at that path, so a file already at its target gets no move.
\<close>

theorem heuristic_target:
  "plainName (name f) \<Longrightarrow>
   heuristicMoves (f # fs) ins =
     (if path f = ''/demo/'' @ decideCategory f ins @ ''/'' @ name f then []
      else [\<lparr>from_path = path f,
              to_path = ''/demo/'' @ decideCategory f ins @ ''/'' @ name f,
              reason = ''Place in '' @ decideCategory f ins
                       @ '' based on extension and instructions''\<rparr>])
     @ heuristicMoves fs ins
   \<and> decideCategory f ins =
     (if lowerExt f \<in> {''ts'', ''tsx'', ''js'', ''jsx'', ''py'', ''go'', ''java'', ''rb''} then ''Code''
      else if lowerExt f \<in> {''md'', ''txt'', ''pdf'', ''doc'', ''docx''} then ''Documents''
      else if lowerExt f \<in> {''png'', ''jpg'', ''jpeg'', ''gif'', ''webp'', ''svg''} then ''Images''
      else if lowerExt f \<in> {''zip'', ''tar'', ''gz'', ''rar'', ''7z''} then ''Archives''
      else if lowerExt f \<in> {''csv'', ''json'', ''xlsx''} then ''Data''
      else ''Misc'')"
proof -
  assume p: "plainName (name f)"
  have j: "path_join [''/demo'', decideCategory f ins, name f]
           = ''/demo/'' @ decideCategory f ins @ ''/'' @ name f"
    using p decideCategory_cases by (rule path_join_demo)
  have m: "heuristicMoves (f # fs) ins =
     (if path f = ''/demo/'' @ decideCategory f ins @ ''/'' @ name f then []
      else [\<lparr>from_path = path f,
              to_path = ''/demo/'' @ decideCategory f ins @ ''/'' @ name f,
              reason = ''Place in '' @ decideCategory f ins
                       @ '' based on extension and instructions''\<rparr>])
     @ heuristicMoves fs ins"
    by (simp add: j Let_def)
  show ?thesis
    by (rule conjI [OF m decideCategory_table])
qed

text \<open>
  The theorem at \<open>report.pdf\<close>: at the sandbox root it is moved to
  \<open>/demo/Documents/report.pdf\<close>, and once there it is not moved again.
\<close>

theorem heuristic_target_witness:
  "plainName ''report.pdf'' \<and>
   heuristicMoves [FileNode ''report.pdf'' ''/report.pdf'' File (Some 10) (Some ''pdf'') None
                     (Some 1000) (Some 1000)] ''sort by type''
     = [\<lparr>from_path = ''/report.pdf'', to_path = ''/demo/Documents/report.pdf'',
         reason = ''Place in Documents based on extension and instructions''\<rparr>] \<and>
   heuristicMoves [FileNode ''report.pdf'' ''/demo/Documents/report.pdf'' File (Some 10)
                     (Some ''pdf'') None (Some 1000) (Some 1000)] ''sort by type'' = []"
proof -
  have p: "plainName ''report.pdf''" by (simp add: plainName_def)
  have d: "decideCategory (FileNode ''report.pdf'' q File (Some 10) (Some ''pdf'') None
             (Some 1000) (Some 1000)) ''sort by type'' = ''Documents''" for q
    by (simp add: decideCategory_def toLowerCase_def lowerChar_def)
  have n: "name (FileNode ''report.pdf'' q File (Some 10) (Some ''pdf'') None
             (Some 1000) (Some 1000)) = ''report.pdf''" for q
    by simp
  note t1 = heuristic_target [of "FileNode ''report.pdf'' ''/report.pdf'' File (Some 10)
        (Some ''pdf'') None (Some 1000) (Some 1000)" "[]" "''sort by type''",
        unfolded n, OF p, THEN conjunct1]
  note t2 = heuristic_target [of "FileNode ''report.pdf'' ''/demo/Documents/report.pdf'' File
        (Some 10) (Some ''pdf'') None (Some 1000) (Some 1000)" "[]" "''sort by type''",
        unfolded n, OF p, THEN conjunct1]
  show ?thesis
    using p by (simp del: heuristicMoves.simps(2) add: t1 t2 d)
qed

text \<open>
  The claim as the specification words it has the target at
  \<open><sandboxRoot>/<category>/<name>\<close>. With the sandbox root \<open>/fs\<close> and \<open>report.pdf\<close> at the
  root, synthesis plans one move, and its target resolves to
  \<open>/fs/demo/Documents/report.pdf\<close>, not to \<open>/fs/Documents/report.pdf\<close>.
\<close>

theorem heuristic_target_not_under_root:
  "createPlanFromInstructions cfg0 envOff diskReport 5000 ''sort by type''
     = Inr \<lparr>moves = [\<lparr>from_path = ''/report.pdf'', to_path = ''/demo/Documents/report.pdf'',
                       reason = ''Place in Documents based on extension and instructions''\<rparr>],
             deletions = []\<rparr> \<and>
   safeRoot cfg0 = ''/fs'' \<and>
   sanitizePath cfg0 ''/demo/Documents/report.pdf'' = Inr ''/fs/demo/Documents/report.pdf'' \<and>
   ''/fs/demo/Documents/report.pdf'' \<noteq> safeRoot cfg0 @ ''/Documents/report.pdf''"
  by code_simp

text \<open>
  Synthesis, application and synthesis again, on that file system: the move is applied, and
  the second plan has no move.
\<close>

lemma heuristic_rerun_after_apply:
  "(case applyPlan cfg0 kernel0 diskReport
           \<lparr>moves = [\<lparr>from_path = ''/report.pdf'', to_path = ''/demo/Documents/report.pdf'',
                       reason = ''Place in Documents based on extension and instructions''\<rparr>],
             deletions = []\<rparr> of
      (disk', r) \<Rightarrow> r = Inr 1 \<and>
         createPlanFromInstructions cfg0 envOff disk' 6000 ''sort by type''
           = Inr \<lparr>moves = [], deletions = []\<rparr>)"
  by code_simp

text \<open>
  C7. The heuristic does not read the instruction text: \<open>decideCategory\<close> gives the same
  category, and the third tier the same plan, for any two instruction strings.
\<close>

theorem heuristic_ignores_instructions:
  "decideCategory f i1 = decideCategory f i2 \<and>
   \<lparr>moves = heuristicMoves (flattenFiles tree) i1, deletions = []\<rparr>
     = \<lparr>moves = heuristicMoves (flattenFiles tree) i2, deletions = []\<rparr>"
proof -
  have c: "decideCategory g i1 = decideCategory g i2" for g
    by (simp add: decideCategory_def)
  have "heuristicMoves fs i1 = heuristicMoves fs i2" for fs
    by (induction fs) (simp_all add: c)
  then show ?thesis
    by (simp add: c)
qed

subsection \<open>The extraction of JSON and the two services\<close>

text \<open>
  What the regular expression finds. Where the longest run of white space leaves no closing
  fence, giving some of it back leaves none either, because a fence does not start with
  white space; and where the first opening fence has no closing fence after it, no later
  one has. So the first group is the text after the first opening fence and the white space
  that follows it, up to the next closing fence.
\<close>

lemma firstSome_map: "firstSome f (map h xs) = firstSome (\<lambda>x. f (h x)) xs"
  by (induction xs) (auto split: option.splits)

lemma firstSome_option: "firstSome (\<lambda>x. map_option h (f x)) xs = map_option h (firstSome f xs)"
  by (induction xs) (auto split: option.splits)

lemma firstSome_None: "(\<And>x. x \<in> set xs \<Longrightarrow> f x = None) \<Longrightarrow> firstSome f xs = None"
  by (induction xs) auto

lemma upt_Suc_shift: "[0..<Suc (Suc n)] = 0 # map Suc [0..<Suc n]"
  by (simp add: upt_conv_Cons map_Suc_upt del: upt_Suc)

lemma firstSome_suffixes:
  "firstSome (\<lambda>i. g (drop i (x # xs))) [0..<Suc (length (x # xs))] =
     (case g (x # xs) of Some y \<Rightarrow> Some y
      | None \<Rightarrow> firstSome (\<lambda>i. g (drop i xs)) [0..<Suc (length xs)])"
  by (simp add: upt_Suc_shift firstSome_map del: upt_Suc split: option.splits)

lemma lazyGroup_Nil: "lazyGroup [] = None"
  by (simp add: lazyGroup_def fence_def)

lemma lazyGroup_Cons:
  "lazyGroup (c # cs) =
     (if startsWith (c # cs) fence then Some [] else map_option ((#) c) (lazyGroup cs))"
proof -
  have "firstSome (\<lambda>l. if startsWith (drop l cs) fence then Some (c # take l cs) else None) xs
        = map_option ((#) c) (firstSome (\<lambda>l. if startsWith (drop l cs) fence then Some (take l cs) else None) xs)"
    for xs
    by (induction xs) (auto split: option.splits)
  then show ?thesis
    by (simp add: lazyGroup_def upt_Suc_shift firstSome_map del: upt_Suc cong: if_cong)
qed

lemma lazyGroup_beforeFirst: "lazyGroup s = beforeFirst fence s"
proof (induction s)
  case Nil
  then show ?case by (simp add: lazyGroup_Nil fence_def)
next
  case (Cons c cs)
  then show ?case by (cases "beforeFirst fence cs") (simp_all add: lazyGroup_Cons)
qed

lemma space_not_fence: "isSpace c \<Longrightarrow> \<not> startsWith (c # s) fence"
  by (auto simp: isSpace_def fence_def)

lemma beforeFirst_space:
  "isSpace c \<Longrightarrow> beforeFirst fence (c # s) = None \<longleftrightarrow> beforeFirst fence s = None"
  by (simp add: space_not_fence split: option.splits)

lemma beforeFirst_drop: "beforeFirst fence (drop k s) \<noteq> None \<Longrightarrow> beforeFirst fence s \<noteq> None"
proof (induction s arbitrary: k)
  case Nil
  then show ?case by simp
next
  case (Cons c cs)
  show ?case
  proof (cases k)
    case 0
    then show ?thesis using Cons.prems by simp
  next
    case (Suc j)
    then have "beforeFirst fence (drop j cs) \<noteq> None" using Cons.prems by simp
    from Cons.IH [OF this] show ?thesis by (auto split: option.splits)
  qed
qed

lemma beforeFirst_dropWhile:
  "beforeFirst fence (dropWhile isSpace s) = None \<longleftrightarrow> beforeFirst fence s = None"
  by (induction s) (simp_all add: beforeFirst_space del: beforeFirst.simps(2))

lemma greedySpace_beforeFirst: "greedySpace s = beforeFirst fence (dropWhile isSpace s)"
proof -
  let ?w = "length (takeWhile isSpace s)"
  have d: "drop ?w s = dropWhile isSpace s" by (simp add: dropWhile_eq_drop)
  have r: "rev [0..<Suc ?w] = ?w # rev [0..<?w]" by simp
  show ?thesis
  proof (cases "beforeFirst fence (dropWhile isSpace s)")
    case None
    have "lazyGroup (drop k s) = None" for k
    proof -
      have "beforeFirst fence s = None" using None by (simp add: beforeFirst_dropWhile)
      then have "beforeFirst fence (drop k s) = None"
        using beforeFirst_drop [of k s] by (cases "beforeFirst fence (drop k s)") auto
      then show ?thesis by (simp add: lazyGroup_beforeFirst)
    qed
    then have "greedySpace s = None"
      unfolding greedySpace_def by (intro firstSome_None) simp
    then show ?thesis using None by simp
  next
    case (Some g)
    then show ?thesis
      unfolding greedySpace_def r by (simp add: lazyGroup_beforeFirst d)
  qed
qed

lemma matchAt_code:
  "matchAt s =
     (if startsWithCI s (fence @ ''json'')
      then beforeFirst fence (dropWhile isSpace (drop (length (fence @ ''json'')) s)) else None)"
  by (simp add: matchAt_def greedySpace_beforeFirst)

lemma matchAt_later:
  assumes "beforeFirst fence (dropWhile isSpace (drop n s)) = None"
    and "n = length (fence @ ''json'')"
  shows "matchAt (drop i s) = None"
proof (rule ccontr)
  assume "matchAt (drop i s) \<noteq> None"
  then have "beforeFirst fence (dropWhile isSpace (drop n (drop i s))) \<noteq> None"
    unfolding matchAt_code assms(2) by (simp split: if_splits)
  then have "beforeFirst fence (drop n (drop i s)) \<noteq> None"
    by (simp add: beforeFirst_dropWhile)
  then have "beforeFirst fence (drop i (drop n s)) \<noteq> None"
    by (simp add: add.commute)
  then have "beforeFirst fence (drop n s) \<noteq> None"
    by (rule beforeFirst_drop)
  then show False
    using assms(1) by (simp add: beforeFirst_dropWhile)
qed

lemma matchCodeBlock_Nil: "matchCodeBlock [] = None"
  by (simp add: matchCodeBlock_def matchAt_def startsWithCI_def toLowerCase_def fence_def)

lemma matchCodeBlock_Cons:
  "matchCodeBlock (c # cs) =
     (case matchAt (c # cs) of Some g \<Rightarrow> Some g | None \<Rightarrow> matchCodeBlock cs)"
  unfolding matchCodeBlock_def by (rule firstSome_suffixes)

lemma matchCodeBlock_fencedJson: "matchCodeBlock txt = spec_fencedJson txt"
proof (induction "txt")
  case Nil
  then show ?case
    by (simp add: matchCodeBlock_Nil spec_fencedJson_def startsWithCI_def toLowerCase_def fence_def)
next
  case (Cons c cs)
  show ?case
  proof (cases "startsWithCI (c # cs) (fence @ ''json'')")
    case False
    then have "matchAt (c # cs) = None" by (simp add: matchAt_def)
    then show ?thesis
      using False Cons.IH by (simp add: matchCodeBlock_Cons spec_fencedJson_def)
  next
    case True
    let ?body = "dropWhile isSpace (drop (length (fence @ ''json'')) (c # cs))"
    have s: "spec_fencedJson (c # cs) = beforeFirst fence ?body"
      using True by (simp add: spec_fencedJson_def)
    have m: "matchAt (c # cs) = beforeFirst fence ?body"
      using True by (simp add: matchAt_code)
    show ?thesis
    proof (cases "beforeFirst fence ?body")
      case (Some g)
      then show ?thesis unfolding s matchCodeBlock_Cons m by simp
    next
      case None
      have "matchAt (drop i cs) = None" for i
        using matchAt_later [OF None refl, of "Suc i"] by simp
      then have "matchCodeBlock cs = None"
        unfolding matchCodeBlock_def by (intro firstSome_None) simp
      then show ?thesis unfolding s matchCodeBlock_Cons m using None by simp
    qed
  qed
qed

text \<open>
  The slice from the first \<open>{\<close> to the last \<open>}\<close> is the widest \<open>{...}\<close> substring.
\<close>

lemma dropWhile_all: "(\<forall>x\<in>set xs. P x) \<Longrightarrow> dropWhile P xs = []"
  by (induction xs) auto

lemma widest_none_open:
  assumes "CHR ''{'' \<notin> set txt"
  shows "spec_widest txt = []"
proof -
  have h: "dropWhile (\<lambda>c. c \<noteq> CHR ''{'') txt = []"
    using assms by (intro dropWhile_all) auto
  show ?thesis unfolding spec_widest_def h by simp
qed

lemma takeWhile_all: "(\<forall>x\<in>set xs. P x) \<Longrightarrow> takeWhile P xs = xs"
  by (induction xs) auto

lemma widest_split:
  assumes a: "CHR ''{'' \<notin> set a"
  shows "spec_widest (a @ CHR ''{'' # b) =
          (if CHR ''}'' \<in> set b then CHR ''{'' # rev (dropWhile (\<lambda>c. c \<noteq> CHR ''}'') (rev b)) else [])"
proof -
  have "dropWhile (\<lambda>c. c \<noteq> CHR ''{'') (a @ CHR ''{'' # b)
        = dropWhile (\<lambda>c. c \<noteq> CHR ''{'') (CHR ''{'' # b)"
    by (rule dropWhile_append2) (use a in auto)
  then have d: "dropWhile (\<lambda>c. c \<noteq> CHR ''{'') (a @ CHR ''{'' # b) = CHR ''{'' # b"
    by simp
  show ?thesis
  proof (cases "CHR ''}'' \<in> set b")
    case True
    then have "dropWhile (\<lambda>c. c \<noteq> CHR ''}'') (rev b @ [CHR ''{''])
               = dropWhile (\<lambda>c. c \<noteq> CHR ''}'') (rev b) @ [CHR ''{'']"
      by (simp add: dropWhile_append1 [where x = "CHR ''}''"])
    then show ?thesis using True unfolding spec_widest_def d by simp
  next
    case False
    then have "dropWhile (\<lambda>c. c \<noteq> CHR ''}'') (rev b @ [CHR ''{'']) = []"
      by (intro dropWhile_all) auto
    then show ?thesis using False unfolding spec_widest_def d by simp
  qed
qed

lemma takeWhile_shorter: "x \<in> set xs \<Longrightarrow> \<not> P x \<Longrightarrow> length (takeWhile P xs) < length xs"
  by (induction xs) auto

lemma rev_dropWhile_rev:
  "rev (dropWhile P (rev b)) = take (length b - length (takeWhile P (rev b))) b"
  by (simp add: dropWhile_eq_drop rev_drop)

lemma widest_slice_split:
  assumes a: "CHR ''{'' \<notin> set a"
  shows "(if length (a @ CHR ''{'' # b) - 1
               - length (takeWhile (\<lambda>x. x \<noteq> CHR ''}'') (rev (a @ CHR ''{'' # b)))
              > length a
          then spec_widest (a @ CHR ''{'' # b) \<noteq> [] \<and>
               slice (a @ CHR ''{'' # b) (length a)
                 (length (a @ CHR ''{'' # b) - 1
                    - length (takeWhile (\<lambda>x. x \<noteq> CHR ''}'') (rev (a @ CHR ''{'' # b))) + 1)
               = spec_widest (a @ CHR ''{'' # b)
          else spec_widest (a @ CHR ''{'' # b) = [])"
proof (cases "CHR ''}'' \<in> set b")
  case True
  define k where "k = length (takeWhile (\<lambda>x. x \<noteq> CHR ''}'') (rev b))"
  have tw: "takeWhile (\<lambda>x. x \<noteq> CHR ''}'') (rev b @ CHR ''{'' # rev a)
            = takeWhile (\<lambda>x. x \<noteq> CHR ''}'') (rev b)"
    by (rule takeWhile_append1 [where x = "CHR ''}''"]) (use True in auto)
  have kb: "k < length b"
  proof -
    have "length (takeWhile (\<lambda>x. x \<noteq> CHR ''}'') (rev b)) < length (rev b)"
      by (rule takeWhile_shorter [where x = "CHR ''}''"]) (use True in auto)
    then show ?thesis by (simp add: k_def)
  qed
  have w: "spec_widest (a @ CHR ''{'' # b) = CHR ''{'' # take (length b - k) b"
    using widest_split [OF a, of b] True by (simp add: rev_dropWhile_rev k_def)
  have l: "length (a @ CHR ''{'' # b) - 1
             - length (takeWhile (\<lambda>x. x \<noteq> CHR ''}'') (rev (a @ CHR ''{'' # b)))
           = length a + (length b - k)"
    using kb by (simp add: tw k_def)
  have sl: "slice (a @ CHR ''{'' # b) (length a) (length a + (length b - k) + 1)
            = CHR ''{'' # take (length b - k) b"
    by (simp add: slice_def)
  show ?thesis
    unfolding l using kb w sl by simp
next
  case False
  have tw: "takeWhile (\<lambda>x. x \<noteq> CHR ''}'') (rev b @ CHR ''{'' # rev a)
            = rev b @ takeWhile (\<lambda>x. x \<noteq> CHR ''}'') (CHR ''{'' # rev a)"
    by (rule takeWhile_append2) (use False in auto)
  have w: "spec_widest (a @ CHR ''{'' # b) = []"
    using widest_split [OF a, of b] False by simp
  have l: "\<not> length (a @ CHR ''{'' # b) - 1
             - length (takeWhile (\<lambda>x. x \<noteq> CHR ''}'') (rev (a @ CHR ''{'' # b)))
           > length a"
    by (simp add: tw)
  show ?thesis using w l by simp
qed

lemma first_index_split:
  assumes "c \<in> set txt"
  shows "\<exists>a b. txt = a @ c # b \<and> c \<notin> set a \<and> length (takeWhile (\<lambda>x. x \<noteq> c) txt) = length a"
proof -
  from assms obtain a b where s: "txt = a @ c # b" "c \<notin> set a"
    by (meson split_list_first)
  have "takeWhile (\<lambda>x. x \<noteq> c) (a @ c # b) = a @ takeWhile (\<lambda>x. x \<noteq> c) (c # b)"
    by (rule takeWhile_append2) (use s(2) in auto)
  then have h: "length (takeWhile (\<lambda>x. x \<noteq> c) txt) = length a"
    using s(1) by simp
  show ?thesis
    by (rule exI [of _ a], rule exI [of _ b]) (use s h in simp)
qed

lemma widest_slice:
  assumes o: "CHR ''{'' \<in> set txt"
  shows "(if length txt - 1 - length (takeWhile (\<lambda>x. x \<noteq> CHR ''}'') (rev txt))
              > length (takeWhile (\<lambda>x. x \<noteq> CHR ''{'') txt)
          then spec_widest txt \<noteq> [] \<and>
               slice txt (length (takeWhile (\<lambda>x. x \<noteq> CHR ''{'') txt))
                 (length txt - 1 - length (takeWhile (\<lambda>x. x \<noteq> CHR ''}'') (rev txt)) + 1)
               = spec_widest txt
          else spec_widest txt = [])"
proof -
  from first_index_split [OF o] obtain a b where
    s: "txt = a @ CHR ''{'' # b" "CHR ''{'' \<notin> set a"
       "length (takeWhile (\<lambda>x. x \<noteq> CHR ''{'') txt) = length a" by blast
  show ?thesis
    unfolding s(3) unfolding s(1) by (rule widest_slice_split [OF s(2)])
qed

lemma widest_no_close:
  assumes "CHR ''}'' \<notin> set txt"
  shows "spec_widest txt = []"
proof -
  have "dropWhile (\<lambda>c. c \<noteq> CHR ''}'') (rev (dropWhile (\<lambda>c. c \<noteq> CHR ''{'') txt)) = []"
    by (rule dropWhile_all) (use assms set_dropWhileD in fastforce)
  then show ?thesis unfolding spec_widest_def by simp
qed

lemma widestBraces_code:
  "spec_widestBraces parse txt =
     (case (indexOf txt CHR ''{'', lastIndexOf txt CHR ''}'') of
        (Some firstCurly, Some lastCurly) \<Rightarrow>
          if lastCurly > firstCurly then parse (slice txt firstCurly (lastCurly + 1)) else None
      | _ \<Rightarrow> None)"
proof (cases "CHR ''{'' \<in> set txt")
  case False
  then show ?thesis
    by (simp add: spec_widestBraces_def indexOf_def widest_none_open)
next
  case o: True
  show ?thesis
  proof (cases "CHR ''}'' \<in> set txt")
    case False
    then show ?thesis
      using o by (simp add: spec_widestBraces_def indexOf_def lastIndexOf_def widest_no_close)
  next
    case True
    show ?thesis
      using widest_slice [OF o] o True
      by (simp add: spec_widestBraces_def indexOf_def lastIndexOf_def split: if_splits)
  qed
qed


lemma extractJson_chain:
  assumes "parse [] = None"
  shows "extractJson parse txt =
     (case spec_firstSuccess (spec_strategies spec_fencedJson parse) txt of
        Some j \<Rightarrow> j
      | None \<Rightarrow> JNull)"
proof -
  have f: "(case matchCodeBlock txt of None \<Rightarrow> None
            | Some block \<Rightarrow> if block \<noteq> [] then parse block else None)
           = spec_block spec_fencedJson parse txt"
    using assms by (simp add: spec_block_def matchCodeBlock_fencedJson split: option.splits)
  show ?thesis
    unfolding extractJson_def f
    by (simp add: spec_strategies_def spec_wholeResponse_def widestBraces_code split: option.splits)
qed

lemma modelTier_answers:
  assumes "env_GOOGLE_API_KEY env = Some key" and "key \<noteq> []" and "importsOk env"
    and "invoke env (case env_GEMINI_MODEL env of None \<Rightarrow> ''gemini-1.5-flash'' | Some m \<Rightarrow> m)
           ins (summarize now files) = Content raw"
  shows "modelTier env now files ins =
           Some \<lparr>moves = (case (if truthy (extractJson (JSON_parse env) (contentText raw))
                                  then safeParse (extractJson (JSON_parse env) (contentText raw))
                                  else None) of
                             Some (Some xs) \<Rightarrow> xs | _ \<Rightarrow> []),
                  deletions = []\<rparr>"
  using assms by (simp add: modelTier_def Let_def)

text \<open>
  C9, as the program has it. \<open>extractJson\<close> is the first success of three strategies in their
  order: the whole response, the content of the first fenced block opened with \<open>json\<close> (in
  any letter case), and the widest \<open>{...}\<close> substring (for a \<open>JSON.parse\<close> that rejects the
  empty text, as it does); it is \<open>null\<close> when all three fail. Whenever the generative model
  is asked and answers, the second tier returns a plan, and when all three strategies fail
  on the answer it is the empty plan: the caller does not go on to the heuristic. This holds
  whether the organizer is not configured or has failed.
\<close>

theorem extractJson_strategies:
  "JSON_parse env [] = None \<Longrightarrow>
   extractJson (JSON_parse env) txt =
     (case spec_firstSuccess (spec_strategies spec_fencedJson (JSON_parse env)) txt of
        Some j \<Rightarrow> j
      | None \<Rightarrow> JNull)
   \<and> (organizerTier env now files ins = None \<and> env_GOOGLE_API_KEY env = Some key \<and> key \<noteq> []
        \<and> importsOk env
        \<and> invoke env (case env_GEMINI_MODEL env of None \<Rightarrow> ''gemini-1.5-flash'' | Some m \<Rightarrow> m)
             ins (summarize now files) = Content raw
      \<longrightarrow> (\<exists>ms. tryLlmOrganize env now files ins = Some \<lparr>moves = ms, deletions = []\<rparr>)
          \<and> (spec_firstSuccess (spec_strategies spec_fencedJson (JSON_parse env)) (contentText raw)
                = None
              \<longrightarrow> tryLlmOrganize env now files ins = Some \<lparr>moves = [], deletions = []\<rparr>))"
proof -
  assume p: "JSON_parse env [] = None"
  have c: "extractJson (JSON_parse env) t =
     (case spec_firstSuccess (spec_strategies spec_fencedJson (JSON_parse env)) t of
        Some j \<Rightarrow> j
      | None \<Rightarrow> JNull)" for t
    using p by (rule extractJson_chain [where parse = "JSON_parse env"])
  show ?thesis
  proof (rule conjI [OF c], rule impI)
    assume h: "organizerTier env now files ins = None \<and> env_GOOGLE_API_KEY env = Some key \<and> key \<noteq> []
        \<and> importsOk env
        \<and> invoke env (case env_GEMINI_MODEL env of None \<Rightarrow> ''gemini-1.5-flash'' | Some m \<Rightarrow> m)
             ins (summarize now files) = Content raw"
    then have t: "tryLlmOrganize env now files ins = modelTier env now files ins"
      by (simp add: tryLlmOrganize_def)
    note m = modelTier_answers [of env key ins now files raw]
    have a: "\<exists>ms. tryLlmOrganize env now files ins = Some \<lparr>moves = ms, deletions = []\<rparr>"
      unfolding t using h m by blast
    have b: "tryLlmOrganize env now files ins = Some \<lparr>moves = [], deletions = []\<rparr>"
      if "spec_firstSuccess (spec_strategies spec_fencedJson (JSON_parse env)) (contentText raw) = None"
    proof -
      have e: "extractJson (JSON_parse env) (contentText raw) = JNull"
        using that by (simp add: c [of "contentText raw"])
      show ?thesis
        unfolding t using h m by (simp add: e)
    qed
    show "(\<exists>ms. tryLlmOrganize env now files ins = Some \<lparr>moves = ms, deletions = []\<rparr>)
          \<and> (spec_firstSuccess (spec_strategies spec_fencedJson (JSON_parse env)) (contentText raw)
                = None
              \<longrightarrow> tryLlmOrganize env now files ins = Some \<lparr>moves = [], deletions = []\<rparr>)"
      using a b by blast
  qed
qed

text \<open>
  The theorem at a model that answers \<open>I cannot help\<close>: no strategy succeeds on this text and
  the tier returns the empty plan. On \<open>Here {} you go\<close> the third strategy wins, and on a
  block opened with \<open>JSON\<close> and a no-break space the second one does.
\<close>

theorem extractJson_strategies_witness:
  "JSON_parse (envModel ''I cannot help'') [] = None \<and>
   extractJson (JSON_parse (envModel ''I cannot help'')) ''Here {} you go'' = JObject [] \<and>
   extractJson (JSON_parse (envModel ''I cannot help''))
      (''Sure: '' @ fence @ ''JSON'' @ [CHR 0xA0, CHR 10] @ ''[]'' @ [CHR 10] @ fence @ '' done'')
     = JArray [] \<and>
   organizerTier (envModel ''I cannot help'') 5000
      [FileNode ''report.pdf'' ''/report.pdf'' File (Some 10) (Some ''pdf'') None
         (Some 1000) (Some 1000)] ''sort by type'' = None \<and>
   tryLlmOrganize (envModel ''I cannot help'') 5000
      [FileNode ''report.pdf'' ''/report.pdf'' File (Some 10) (Some ''pdf'') None
         (Some 1000) (Some 1000)] ''sort by type''
     = Some \<lparr>moves = [], deletions = []\<rparr>"
proof -
  let ?env = "envModel ''I cannot help''"
  let ?files = "[FileNode ''report.pdf'' ''/report.pdf'' File (Some 10) (Some ''pdf'') None
         (Some 1000) (Some 1000)]"
  let ?block = "''Sure: '' @ fence @ ''JSON'' @ [CHR 0xA0, CHR 10] @ ''[]'' @ [CHR 10] @ fence @ '' done''"
  have p: "JSON_parse ?env [] = None" by code_simp
  have c: "spec_firstSuccess (spec_strategies spec_fencedJson (JSON_parse ?env)) ''Here {} you go''
           = Some (JObject [])"
    by code_simp
  have d: "spec_firstSuccess (spec_strategies spec_fencedJson (JSON_parse ?env)) ?block
           = Some (JArray [])"
    by code_simp
  have n: "spec_firstSuccess (spec_strategies spec_fencedJson (JSON_parse ?env))
             (contentText (RawString ''I cannot help'')) = None"
    by code_simp
  have o: "organizerTier ?env 5000 ?files ''sort by type'' = None"
    by (simp add: organizerTier_def envModel_def)
  note t1 = extractJson_strategies [of "?env" "''Here {} you go''", OF p, THEN conjunct1]
  note t3 = extractJson_strategies [of "?env" "?block", OF p, THEN conjunct1]
  note t2 = extractJson_strategies [of "?env" "[]" 5000 "?files" "''sort by type''" "''key''"
      "RawString ''I cannot help''", OF p, THEN conjunct2, THEN mp, THEN conjunct2, THEN mp]
  have a: "extractJson (JSON_parse ?env) ''Here {} you go'' = JObject []"
    using t1 by (simp only: c option.case)
  have a': "extractJson (JSON_parse ?env) ?block = JArray []"
    using t3 by (simp only: d option.case)
  have b: "tryLlmOrganize ?env 5000 ?files ''sort by type'' = Some \<lparr>moves = [], deletions = []\<rparr>"
  proof (rule t2)
    show "organizerTier ?env 5000 ?files ''sort by type'' = None \<and>
          env_GOOGLE_API_KEY ?env = Some ''key'' \<and> ''key'' \<noteq> [] \<and> importsOk ?env \<and>
          invoke ?env (case env_GEMINI_MODEL ?env of None \<Rightarrow> ''gemini-1.5-flash'' | Some m \<Rightarrow> m)
            ''sort by type'' (summarize 5000 ?files) = Content (RawString ''I cannot help'')"
      using o by (simp add: envModel_def)
    show "spec_firstSuccess (spec_strategies spec_fencedJson (JSON_parse ?env))
             (contentText (RawString ''I cannot help'')) = None"
      by (rule n)
  qed
  show ?thesis by (intro conjI p a a' o b)
qed

text \<open>
  The claim as the specification words it takes the content of a fenced code block for the
  second strategy, and lets synthesis fall through to the next tier when all three fail. A
  block under a fence without \<open>json\<close> holds the text of \<open>[]\<close>: the strategies of the claim
  find it, and the program returns \<open>null\<close>. With the model answering \<open>I cannot help\<close>, all
  three strategies fail, the tier returns the empty plan, and so does synthesis, although
  the heuristic would move \<open>report.pdf\<close>.
\<close>

theorem unparsable_answer_does_not_fall_through:
  "spec_firstSuccess (spec_strategies spec_fencedAny parseTiny)
     (fence @ [CHR 10] @ ''[]'' @ [CHR 10] @ fence) = Some (JArray []) \<and>
   extractJson parseTiny (fence @ [CHR 10] @ ''[]'' @ [CHR 10] @ fence) = JNull \<and>
   spec_firstSuccess (spec_strategies spec_fencedJson parseTiny) ''I cannot help'' = None \<and>
   extractJson parseTiny ''I cannot help'' = JNull \<and>
   JSON_parse (envModel ''I cannot help'') = parseTiny \<and>
   tryLlmOrganize (envModel ''I cannot help'') 5000
      [FileNode ''report.pdf'' ''/report.pdf'' File (Some 10) (Some ''pdf'') None
         (Some 1000) (Some 1000)] ''sort by type''
     = Some \<lparr>moves = [], deletions = []\<rparr> \<and>
   createPlanFromInstructions cfg0 (envModel ''I cannot help'') diskReport 5000 ''sort by type''
     = Inr \<lparr>moves = [], deletions = []\<rparr> \<and>
   createPlanFromInstructions cfg0 envOff diskReport 5000 ''sort by type''
     \<noteq> Inr \<lparr>moves = [], deletions = []\<rparr>"
proof -
  have a: "spec_firstSuccess (spec_strategies spec_fencedAny parseTiny)
     (fence @ [CHR 10] @ ''[]'' @ [CHR 10] @ fence) = Some (JArray [])" by code_simp
  have b: "extractJson parseTiny (fence @ [CHR 10] @ ''[]'' @ [CHR 10] @ fence) = JNull" by code_simp
  have c: "spec_firstSuccess (spec_strategies spec_fencedJson parseTiny) ''I cannot help'' = None"
    by code_simp
  have d: "extractJson parseTiny ''I cannot help'' = JNull" by code_simp
  have e: "JSON_parse (envModel ''I cannot help'') = parseTiny" by (simp add: envModel_def)
  have f: "tryLlmOrganize (envModel ''I cannot help'') 5000
      [FileNode ''report.pdf'' ''/report.pdf'' File (Some 10) (Some ''pdf'') None
         (Some 1000) (Some 1000)] ''sort by type''
     = Some \<lparr>moves = [], deletions = []\<rparr>" by code_simp
  have g: "createPlanFromInstructions cfg0 (envModel ''I cannot help'') diskReport 5000 ''sort by type''
     = Inr \<lparr>moves = [], deletions = []\<rparr>" by code_simp
  have h: "createPlanFromInstructions cfg0 envOff diskReport 5000 ''sort by type''
     \<noteq> Inr \<lparr>moves = [], deletions = []\<rparr>" by code_simp
  show ?thesis by (intro conjI a b c d e f g h)
qed

text \<open>
  C10, as the program has it. When the organizer is configured and answers with status ok
  and a JSON body other than \<open>null\<close> in which \<open>moves\<close> is missing or falsy, the first tier
  succeeds with the empty plan, and synthesis returns it: neither the generative model nor
  the heuristic is tried. When the body is \<open>null\<close>, the first tier ends in its \<open>catch\<close>, and
  synthesis goes on as if the organizer had failed: to the generative model, and from there
  to the heuristic.
\<close>

theorem organizer_without_moves:
  "env_LLM_BASE_URL env = Some llmBase \<Longrightarrow> llmBase \<noteq> [] \<Longrightarrow>
   buildTree cfg disk (DEMO_FS_PATH cfg) = Inr tree \<Longrightarrow>
   fetch env (llmBase @ ''/v1/organize'') ins (summarize now (flattenFiles tree))
     = Response True (Some body) \<Longrightarrow>
   (body \<noteq> JNull \<and> (\<forall>v. jsonField body ''moves'' = Some v \<longrightarrow> \<not> truthy v) \<longrightarrow>
      tryLlmOrganize env now (flattenFiles tree) ins = Some \<lparr>moves = [], deletions = []\<rparr> \<and>
      createPlanFromInstructions cfg env disk now ins = Inr \<lparr>moves = [], deletions = []\<rparr>)
   \<and> (body = JNull \<longrightarrow>
      tryLlmOrganize env now (flattenFiles tree) ins = modelTier env now (flattenFiles tree) ins \<and>
      createPlanFromInstructions cfg env disk now ins =
        Inr (case modelTier env now (flattenFiles tree) ins of
               Some plan \<Rightarrow> plan
             | None \<Rightarrow> \<lparr>moves = heuristicMoves (flattenFiles tree) ins, deletions = []\<rparr>))"
proof -
  assume a: "env_LLM_BASE_URL env = Some llmBase" "llmBase \<noteq> []"
    "buildTree cfg disk (DEMO_FS_PATH cfg) = Inr tree"
    "fetch env (llmBase @ ''/v1/organize'') ins (summarize now (flattenFiles tree))
     = Response True (Some body)"
  have t1: "tryLlmOrganize env now (flattenFiles tree) ins = Some \<lparr>moves = [], deletions = []\<rparr>"
    if "body \<noteq> JNull" "\<forall>v. jsonField body ''moves'' = Some v \<longrightarrow> \<not> truthy v"
  proof -
    have "organizerTier env now (flattenFiles tree) ins = Some \<lparr>moves = [], deletions = []\<rparr>"
      using a(1,2,4) that
      by (cases body; cases "jsonField body ''moves''") (simp_all add: organizerTier_def)
    then show ?thesis by (simp add: tryLlmOrganize_def)
  qed
  have t2: "tryLlmOrganize env now (flattenFiles tree) ins = modelTier env now (flattenFiles tree) ins"
    if "body = JNull"
  proof -
    have "organizerTier env now (flattenFiles tree) ins = None"
      using a(1,2,4) that by (simp add: organizerTier_def)
    then show ?thesis by (simp add: tryLlmOrganize_def)
  qed
  have c1: "createPlanFromInstructions cfg env disk now ins = Inr \<lparr>moves = [], deletions = []\<rparr>"
    if "body \<noteq> JNull" "\<forall>v. jsonField body ''moves'' = Some v \<longrightarrow> \<not> truthy v"
    using t1 [OF that] a(3) by (simp add: createPlanFromInstructions_def)
  have c2: "createPlanFromInstructions cfg env disk now ins =
        Inr (case modelTier env now (flattenFiles tree) ins of
               Some plan \<Rightarrow> plan
             | None \<Rightarrow> \<lparr>moves = heuristicMoves (flattenFiles tree) ins, deletions = []\<rparr>)"
    if "body = JNull"
    using t2 [OF that] a(3) by (simp add: createPlanFromInstructions_def split: option.splits)
  show ?thesis
    using t1 t2 c1 c2 by blast
qed

text \<open>
  The theorem on the file system with \<open>report.pdf\<close> at the root, where the heuristic plans a
  move, with an organizer that answers \<open>{}\<close>: the plan is empty.
\<close>

theorem organizer_without_moves_witness:
  "env_LLM_BASE_URL (envOrganizer (Some (JObject []))) = Some ''http://llm:8000'' \<and>
   JObject [] \<noteq> JNull \<and> jsonField (JObject []) ''moves'' = None \<and>
   createPlanFromInstructions cfg0 (envOrganizer (Some (JObject []))) diskReport 5000
       ''sort by type'' = Inr \<lparr>moves = [], deletions = []\<rparr> \<and>
   createPlanFromInstructions cfg0 envOff diskReport 5000 ''sort by type''
     = Inr \<lparr>moves = [\<lparr>from_path = ''/report.pdf'', to_path = ''/demo/Documents/report.pdf'',
                       reason = ''Place in Documents based on extension and instructions''\<rparr>],
             deletions = []\<rparr>"
proof -
  let ?env = "envOrganizer (Some (JObject []))"
  obtain tree where b: "buildTree cfg0 diskReport (DEMO_FS_PATH cfg0) = Inr tree"
    by (simp add: buildTree_def stat_def DEMO_FS_PATH_def cfg0_def diskReport_def dirOf_def
        pathSegs_def)
  have u: "env_LLM_BASE_URL ?env = Some ''http://llm:8000''"
    by (simp add: envOrganizer_def)
  have f: "fetch ?env (''http://llm:8000'' @ ''/v1/organize'')
             ''sort by type'' (summarize 5000 (flattenFiles tree))
           = Response True (Some (JObject []))"
    by (simp add: envOrganizer_def)
  have j: "jsonField (JObject []) ''moves'' = None" by (simp add: jsonField_def)
  have h: "createPlanFromInstructions cfg0 envOff diskReport 5000 ''sort by type''
     = Inr \<lparr>moves = [\<lparr>from_path = ''/report.pdf'', to_path = ''/demo/Documents/report.pdf'',
                       reason = ''Place in Documents based on extension and instructions''\<rparr>],
             deletions = []\<rparr>"
    by code_simp
  note t = organizer_without_moves [OF u _ b f, THEN conjunct1, THEN mp]
  have "createPlanFromInstructions cfg0 ?env diskReport 5000 ''sort by type''
          = Inr \<lparr>moves = [], deletions = []\<rparr>"
    using t j by simp
  then show ?thesis
    using u j h by simp
qed

text \<open>
  The claim as the specification words it covers every parseable body without a field
  \<open>moves\<close>. The body \<open>null\<close> is one: the organizer answers with status ok, the first tier
  returns no plan, and synthesis, with no generative model configured, returns the plan of
  the heuristic, which moves \<open>report.pdf\<close>.
\<close>

theorem null_body_falls_through:
  "fetch (envOrganizer (Some JNull)) ''http://llm:8000/v1/organize'' ''sort by type'' []
     = Response True (Some JNull) \<and>
   jsonField JNull ''moves'' = None \<and>
   tryLlmOrganize (envOrganizer (Some JNull)) 5000
      [FileNode ''report.pdf'' ''/report.pdf'' File (Some 10) (Some ''pdf'') None
         (Some 1000) (Some 1000)] ''sort by type'' = None \<and>
   createPlanFromInstructions cfg0 (envOrganizer (Some JNull)) diskReport 5000 ''sort by type''
     = Inr \<lparr>moves = [\<lparr>from_path = ''/report.pdf'', to_path = ''/demo/Documents/report.pdf'',
                       reason = ''Place in Documents based on extension and instructions''\<rparr>],
             deletions = []\<rparr>"
  by code_simp

subsection \<open>The previewer\<close>

lemma afterPaths_snoc: "afterPaths (ms @ [m]) = (afterPaths ms)(from_path m \<mapsto> to_path m)"
  by (simp add: afterPaths_def)

lemma afterPaths_mapping: "afterPaths ms p = spec_mapping ms p"
proof (induction ms rule: rev_induct)
  case Nil
  then show ?case by (simp add: afterPaths_def spec_mapping_def)
next
  case (snoc m ms)
  then show ?case by (simp add: afterPaths_snoc spec_mapping_def)
qed

lemma mapPath_rewrite: "mapPath (afterPaths ms) = preview_rewrite ms"
  by (rule ext) (simp add: mapPath_def preview_rewrite_def afterPaths_mapping)

lemma clone_build: "cloneNode mp (buildNode cfg absPath n) = spec_relabel (mapPath mp) (buildNode cfg absPath n)"
proof (induction cfg absPath n rule: buildNode.induct)
  case (1 cfg absPath st c)
  then show ?case by simp
next
  case (2 cfg absPath st es)
  then show ?case by (auto simp: case_prod_beta)
qed

lemma relabel_flatten: "flattenFiles (spec_relabel g t) = map (spec_relabel g) (flattenFiles t)"
proof (induction g t rule: spec_relabel.induct)
  case (1 g nm p t sz e ch a m)
  show ?case
  proof (cases t)
    case File
    then show ?thesis by simp
  next
    case Dir
    show ?thesis
    proof (cases ch)
      case None
      then show ?thesis using Dir by simp
    next
      case (Some cs)
      have "flattenFiles (spec_relabel g x) = map (spec_relabel g) (flattenFiles x)"
        if "x \<in> set cs" for x
        using 1 [OF Dir Some that] .
      then have "map flattenFiles (map (spec_relabel g) cs)
                 = map (map (spec_relabel g)) (map flattenFiles cs)"
        by simp
      then show ?thesis using Dir Some by (simp add: map_concat del: map_map)
    qed
  qed
qed

text \<open>
  The \<open>after\<close> view of every plan: the clone of the snapshot in which the path of a file
  leaf is rewritten by the mapping of the plan, and kept where no move mentions it or the
  target found is empty. For a plan without an empty target this is the clone of the
  specification.
\<close>

lemma preview_after_view:
  "snd (previewPlan cfg K disk plan) =
     (case buildTree cfg disk (DEMO_FS_PATH cfg) of
        Inl e \<Rightarrow> Inl e
      | Inr snapshot \<Rightarrow> Inr (snapshot, spec_relabel (preview_rewrite (moves plan)) snapshot))"
  by (auto simp: previewPlan_def buildTree_def clone_build mapPath_rewrite split: sum.splits option.splits)

lemma rewrite_nonempty_targets:
  assumes "\<forall>m\<in>set ms. to_path m \<noteq> []"
  shows "preview_rewrite ms = spec_rewrite ms"
proof (rule ext)
  fix p
  show "preview_rewrite ms p = spec_rewrite ms p"
  proof (cases "find (\<lambda>m. from_path m = p) (rev ms)")
    case None
    then show ?thesis by (simp add: preview_rewrite_def spec_rewrite_def spec_mapping_def)
  next
    case (Some m)
    then have "m \<in> set (rev ms)" by (metis find_Some_iff nth_mem)
    then have "m \<in> set ms" by simp
    then have "to_path m \<noteq> []" using assms by blast
    then show ?thesis using Some by (simp add: preview_rewrite_def spec_rewrite_def spec_mapping_def)
  qed
qed

lemma preview_nonempty_targets:
  assumes "\<forall>m\<in>set (moves plan). to_path m \<noteq> []"
  shows "snd (previewPlan cfg K disk plan) =
     (case buildTree cfg disk (DEMO_FS_PATH cfg) of
        Inl e \<Rightarrow> Inl e
      | Inr snapshot \<Rightarrow> Inr (snapshot, spec_relabel (spec_rewrite (moves plan)) snapshot))"
  unfolding preview_after_view rewrite_nonempty_targets [OF assms] ..

text \<open>
  What the preview leaves. It writes nothing; the directories it lists may get another
  access time, the kernel's matter. So the file system after the preview is the one before
  it but for the access times of directories, and so is a snapshot taken after it; where
  listing a directory leaves its access time, both are the same.
\<close>

lemma map_entry_pairs:
  assumes "\<And>c. g (f c) = g c"
  shows "map (\<lambda>(ent, c). (ent, g c)) (AList.map_entry s f es) = map (\<lambda>(ent, c). (ent, g c)) es"
  using assms by (induction es) auto

lemma touchDirs_noAtime: "fsNoAtime (touchDirs K n) = fsNoAtime n"
proof (induction K n rule: touchDirs.induct)
  case (1 K st c)
  then show ?case by simp
next
  case (2 K st es)
  then show ?case by (auto simp: case_prod_beta)
qed

lemma updateAt_noAtime: "fsNoAtime (updateAt segs (touchDirs K) n) = fsNoAtime n"
proof (induction segs arbitrary: n)
  case Nil
  then show ?case by (simp add: touchDirs_noAtime)
next
  case (Cons s ss)
  show ?case
  proof (cases n)
    case (FsFile st c)
    then show ?thesis by simp
  next
    case (FsDir st es)
    have "map (\<lambda>(ent, c). (ent, fsNoAtime c)) (AList.map_entry s (\<lambda>c. updateAt ss (touchDirs K) c) es)
          = map (\<lambda>(ent, c). (ent, fsNoAtime c)) es"
      by (rule map_entry_pairs) (rule Cons.IH)
    then show ?thesis using FsDir by simp
  qed
qed

lemma preview_leaves:
  "fsNoAtime (fst (previewPlan cfg K disk plan)) = fsNoAtime disk"
  by (simp add: previewPlan_def readTree_def updateAt_noAtime split: sum.splits)

lemma map_of_pairs: "map_of (map (\<lambda>(ent, c). (ent, g c)) es) s = map_option g (map_of es s)"
  by (induction es) auto

lemma lookupFs_noAtime: "lookupFs segs (fsNoAtime n) = map_option fsNoAtime (lookupFs segs n)"
proof (induction segs arbitrary: n)
  case Nil
  then show ?case by simp
next
  case (Cons s ss)
  then show ?case
    by (cases n) (simp_all add: map_of_pairs split: option.splits)
qed

lemma missing_noAtime: "missing segs (fsNoAtime n) = missing segs n"
proof (induction segs arbitrary: n)
  case Nil
  then show ?case by simp
next
  case (Cons s ss)
  then show ?case
    by (cases n) (simp_all add: map_of_pairs split: option.splits)
qed

lemma buildNode_noAtime: "buildNode cfg absPath (fsNoAtime n) = nodeNoAtime (buildNode cfg absPath n)"
proof (induction cfg absPath n rule: buildNode.induct)
  case (1 cfg absPath st c)
  then show ?case by simp
next
  case (2 cfg absPath st es)
  then show ?case by (auto simp: case_prod_beta)
qed

lemma buildTree_noAtime:
  "buildTree cfg (fsNoAtime disk) absPath = map_sum id nodeNoAtime (buildTree cfg disk absPath)"
  by (simp add: buildTree_def stat_def lookupFs_noAtime missing_noAtime buildNode_noAtime
      split: option.splits)

lemma snapshot_after_preview:
  "map_sum id nodeNoAtime (buildTree cfg (fst (previewPlan cfg K disk plan)) absPath)
     = map_sum id nodeNoAtime (buildTree cfg disk absPath)"
  unfolding buildTree_noAtime [symmetric] preview_leaves ..

lemma map_entry_same: "(\<And>c. f c = c) \<Longrightarrow> AList.map_entry s f es = es"
  by (induction es) auto

lemma touchDirs_noatime_mount:
  assumes "\<And>st. readTime K st = st_atimeMs st"
  shows "touchDirs K n = n"
proof (induction n)
  case (FsFile st c)
  then show ?case by simp
next
  case (FsDir st es)
  have "map (\<lambda>(ent, c). (ent, touchDirs K c)) es = map (\<lambda>x. x) es"
    by (rule map_cong [OF refl]) (use FsDir in \<open>auto simp: case_prod_beta\<close>)
  then show ?case using assms by simp
qed

lemma updateAt_same: "(\<And>c. f c = c) \<Longrightarrow> updateAt segs f n = n"
proof (induction segs arbitrary: n)
  case Nil
  then show ?case by simp
next
  case (Cons s ss)
  then show ?case by (cases n) (simp_all add: map_entry_same)
qed

lemma preview_noatime_mount:
  assumes "\<And>st. readTime K st = st_atimeMs st"
  shows "fst (previewPlan cfg K disk plan) = disk"
  using touchDirs_noatime_mount [OF assms]
  by (simp add: previewPlan_def readTree_def updateAt_same split: sum.splits)

text \<open>
  C6. The \<open>after\<close> view is the clone of the snapshot in which the path of every file leaf
  is rewritten through the mapping of the plan. The program breaks this for a move whose
  target is the empty string: \<open>afterPaths.get(p) || p\<close> takes the empty target for a missing
  one. With \<open>report.pdf\<close> in the sandbox and the plan that moves \<open>/report.pdf\<close> to the empty
  string, the mapping sends \<open>/report.pdf\<close> to the empty string and the clone of the claim
  carries it, but the \<open>after\<close> view of the program keeps \<open>/report.pdf\<close>.
\<close>

theorem preview_keeps_path_for_empty_target:
  "snd (previewPlan cfg0 kernel0 diskReport
          \<lparr>moves = [\<lparr>from_path = ''/report.pdf'', to_path = [], reason = ''none''\<rparr>], deletions = []\<rparr>)
     = Inr (FileNode ''fs'' ''/'' Dir None None
              (Some [FileNode ''report.pdf'' ''/report.pdf'' File (Some 10) (Some ''pdf'') None
                       (Some 1000) (Some 1000)]) (Some 1000) (Some 1000),
            FileNode ''fs'' ''/'' Dir None None
              (Some [FileNode ''report.pdf'' ''/report.pdf'' File (Some 10) (Some ''pdf'') None
                       (Some 1000) (Some 1000)]) (Some 1000) (Some 1000)) \<and>
   spec_mapping [\<lparr>from_path = ''/report.pdf'', to_path = [], reason = ''none''\<rparr>] ''/report.pdf'' = Some [] \<and>
   spec_relabel (spec_rewrite [\<lparr>from_path = ''/report.pdf'', to_path = [], reason = ''none''\<rparr>])
     (FileNode ''fs'' ''/'' Dir None None
              (Some [FileNode ''report.pdf'' ''/report.pdf'' File (Some 10) (Some ''pdf'') None
                       (Some 1000) (Some 1000)]) (Some 1000) (Some 1000))
     = FileNode ''fs'' ''/'' Dir None None
              (Some [FileNode ''report.pdf'' [] File (Some 10) (Some ''pdf'') None
                       (Some 1000) (Some 1000)]) (Some 1000) (Some 1000)"
  by code_simp

text \<open>
  On that file system and under that kernel the preview leaves the access time of the
  sandbox root at the clock, and nothing else changed: a snapshot taken after it differs
  from the one taken before it in that access time.
\<close>

lemma preview_moves_access_time:
  "fst (previewPlan cfg0 kernel0 diskReport \<lparr>moves = [], deletions = []\<rparr>)
     = dirOf [(''fs'', FsDir \<lparr>st_size = 4096, st_atimeMs = 7000, st_mtimeMs = 1000\<rparr>
                         [(''report.pdf'', fileOf 10 1000 ''%PDF'')])] \<and>
   buildTree cfg0 (fst (previewPlan cfg0 kernel0 diskReport \<lparr>moves = [], deletions = []\<rparr>)) ''/fs''
     = Inr (FileNode ''fs'' ''/'' Dir None None
              (Some [FileNode ''report.pdf'' ''/report.pdf'' File (Some 10) (Some ''pdf'') None
                       (Some 1000) (Some 1000)]) (Some 7000) (Some 1000))"
  by code_simp

subsection \<open>The garbage detector\<close>

lemma pushAll_Nil: "pushAll [] g = g" by (simp add: pushAll_def)
lemma pushAll_Cons: "pushAll (hp # ps) g = pushAll ps (pushHash (fst hp) (snd hp) g)"
  by (simp add: pushAll_def)
lemma pushAll_snoc: "pushAll (ps @ [hp]) g = pushHash (fst hp) (snd hp) (pushAll ps g)"
  by (simp add: pushAll_def)

lemma scanFiles_result:
  "scanFiles cfg sha1 disk now fs (sg, g) = Inr (sg', g') \<Longrightarrow>
   sg' = sg @ ruleSuggestions now fs \<and> g' = pushAll (hashPairs cfg sha1 disk fs) g"
proof (induction fs arbitrary: sg g)
  case Nil
  then show ?case by (simp add: hashPairs_def hashedFiles_def pushAll_Nil)
next
  case (Cons f fs)
  from Cons.prems obtain absPath where a: "sanitizePath cfg (path f) = Inr absPath"
    by (cases "sanitizePath cfg (path f)") auto
  show ?case
  proof (cases "isJunk f")
    case True
    with Cons.prems a have
      "scanFiles cfg sha1 disk now fs (sg @ [junkSuggestion now f], g) = Inr (sg', g')"
      by simp
    from Cons.IH [OF this] show ?thesis
      using True by (simp add: hashPairs_def hashedFiles_def)
  next
    case nj: False
    let ?sg = "if isStaleLarge now f then sg @ [largeSuggestion now f] else sg"
    show ?thesis
    proof (cases "isHashed f")
      case True
      with Cons.prems a nj obtain h where h: "hashFile sha1 disk absPath = Inr h"
        by (cases "hashFile sha1 disk absPath") (auto simp: Let_def)
      with Cons.prems a nj True have
        "scanFiles cfg sha1 disk now fs (?sg, pushHash h (path f) g) = Inr (sg', g')"
        by (simp add: Let_def)
      from Cons.IH [OF this] show ?thesis
        using nj True a h
        by (simp add: hashPairs_def hashedFiles_def pushAll_Cons digest_def digestOf_def)
    next
      case False
      with Cons.prems a nj have
        "scanFiles cfg sha1 disk now fs (?sg, g) = Inr (sg', g')"
        by (simp add: Let_def)
      from Cons.IH [OF this] show ?thesis
        using nj False by (simp add: hashPairs_def hashedFiles_def)
    qed
  qed
qed

lemma detectFrom_result:
  assumes "detectFrom cfg sha1 disk now tree = Inr suggs"
  shows "suggs = ruleSuggestions now (flattenFiles tree)
           @ duplicateSuggestions (pushAll (hashPairs cfg sha1 disk (flattenFiles tree)) [])"
proof -
  from assms obtain sg g where
    s: "scanFiles cfg sha1 disk now (flattenFiles tree) ([], []) = Inr (sg, g)"
    and r: "suggs = sg @ duplicateSuggestions g"
    by (auto simp: detectFrom_def split: sum.splits)
  from scanFiles_result [OF s] r show ?thesis by simp
qed

lemma junk_in_rules: "f \<in> set fs \<Longrightarrow> isJunk f \<Longrightarrow> junkSuggestion now f \<in> set (ruleSuggestions now fs)"
  by (induction fs) auto

lemma junk_suggested:
  assumes "detectFrom cfg sha1 disk now tree = Inr suggs"
    and "f \<in> set (flattenFiles tree)" and "isJunk f"
  shows "junkSuggestion now f \<in> set suggs"
  using detectFrom_result [OF assms(1)] junk_in_rules [OF assms(2,3)] by simp


lemma pushHash_keys:
  "map fst (pushHash h p g) = (if h \<in> fst ` set g then map fst g else map fst g @ [h])"
  by (induction g) (auto split: if_splits)

lemma pushHash_distinct: "distinct (map fst g) \<Longrightarrow> distinct (map fst (pushHash h p g))"
  by (simp add: pushHash_keys)

lemma pushHash_map_of:
  "map_of (pushHash h p g) k =
     (if k = h then Some ((case map_of g h of None \<Rightarrow> [] | Some ps \<Rightarrow> ps) @ [p]) else map_of g k)"
  by (induction g) auto

lemma pushAll_distinct: "distinct (map fst (pushAll ps []))"
  by (induction ps rule: rev_induct) (simp_all add: pushAll_Nil pushAll_snoc pushHash_distinct)

lemma pushAll_map_of:
  "map_of (pushAll ps []) k =
     (if k \<in> fst ` set ps then Some (map snd (filter (\<lambda>hp. fst hp = k) ps)) else None)"
proof (induction ps arbitrary: k rule: rev_induct)
  case Nil
  then show ?case by (simp add: pushAll_Nil)
next
  case (snoc hp ps)
  show ?case
    by (force simp: pushAll_snoc pushHash_map_of snoc.IH filter_empty_conv image_iff)
qed

lemma pushAll_entry:
  "(k, files) \<in> set (pushAll ps []) \<longleftrightarrow>
     k \<in> fst ` set ps \<and> files = map snd (filter (\<lambda>hp. fst hp = k) ps)"
proof -
  have "(k, files) \<in> set (pushAll ps []) \<longleftrightarrow> map_of (pushAll ps []) k = Some files"
    using pushAll_distinct [of ps] by simp
  then show ?thesis by (auto simp: pushAll_map_of)
qed

lemma group_of_pairs:
  "map snd (filter (\<lambda>hp. fst hp = k) (hashPairs cfg sha1 disk fs)) = hashGroup cfg sha1 disk fs k"
  by (simp add: hashPairs_def hashGroup_def filter_map comp_def)

lemma duplicate_iff:
  "s \<in> set (duplicateSuggestions g) \<longleftrightarrow>
     (\<exists>h files p. (h, files) \<in> set g \<and> length files > 1 \<and> p \<in> set (drop 1 files)
                 \<and> s = duplicateOf p (files ! 0))"
  by (auto simp: duplicateSuggestions_def duplicateOf_def split: if_splits)

lemma duplicate_files_mset:
  "mset (map file_d (duplicateSuggestions g)) \<subseteq># mset (concat (map snd g))"
proof (induction g)
  case Nil
  then show ?case by (simp add: duplicateSuggestions_def)
next
  case (Cons e g)
  obtain h files where e: "e = (h, files)" by (cases e)
  have d: "duplicateSuggestions ((h, files) # g)
           = (if length files > 1 then map (\<lambda>p. duplicateOf p (files ! 0)) (drop 1 files) else [])
             @ duplicateSuggestions g"
    by (simp add: duplicateSuggestions_def duplicateOf_def)
  have f: "map file_d (map (\<lambda>p. duplicateOf p (files ! 0)) (drop 1 files)) = drop 1 files"
    by (simp add: duplicateOf_def comp_def)
  have m: "mset (drop 1 files) \<subseteq># mset files"
    by (metis append_take_drop_id mset_subset_eq_add_right union_code)
  have "mset (map file_d (if length files > 1 then map (\<lambda>p. duplicateOf p (files ! 0)) (drop 1 files) else []))
        \<subseteq># mset files"
    using m f by (cases "length files > 1") (simp_all del: drop_Suc_Cons)
  then show ?case
    using Cons.IH unfolding e d by (simp add: subset_mset.add_mono del: drop_Suc_Cons)
qed

lemma pushHash_mset:
  "mset (concat (map snd (pushHash h p g))) = mset (concat (map snd g)) + {#p#}"
  by (induction g) auto

lemma pushAll_mset:
  "mset (concat (map snd (pushAll ps []))) = mset (map snd ps)"
  by (induction ps rule: rev_induct) (simp_all add: pushAll_Nil pushAll_snoc pushHash_mset)

lemma rule_files:
  "map file_d (ruleSuggestions now fs)
     = map path (filter (\<lambda>f. isJunk f \<or> isStaleLarge now f) fs)"
  by (induction fs) (auto simp: junkSuggestion_def largeSuggestion_def)

lemma large_not_hashed: "isStaleLarge now f \<Longrightarrow> \<not> isHashed f"
  by (auto simp: isStaleLarge_def isHashed_def split: option.splits)

lemma two_filters_mset:
  assumes "\<And>x. x \<in> set xs \<Longrightarrow> \<not> (P x \<and> Q x)"
  shows "mset (filter P xs) + mset (filter Q xs) \<subseteq># mset xs"
proof -
  have "filter_mset Q (mset xs) \<subseteq># filter_mset (\<lambda>x. \<not> P x) (mset xs)"
    by (rule filter_mset_mono_strong) (use assms in auto)
  then have "filter_mset P (mset xs) + filter_mset Q (mset xs)
             \<subseteq># filter_mset P (mset xs) + filter_mset (\<lambda>x. \<not> P x) (mset xs)"
    by (rule subset_mset.add_left_mono)
  then have "filter_mset P (mset xs) + filter_mset Q (mset xs) \<subseteq># mset xs"
    by (simp only: multiset_partition [symmetric])
  then show ?thesis by simp
qed

text \<open>
  C2, as the program has it. The rules are not cumulative: a junk artifact ends the turn of
  its file (\<open>continue\<close>), so that the file is neither tested as a stale large file nor hashed,
  and a stale large file (above 50 MiB) is never hashed (below 20 MiB). Every file of the
  snapshot therefore accounts for at most one suggestion: the suggested paths, counted with
  their multiplicity, are among the paths of the files.
\<close>

theorem one_suggestion_per_file:
  "detectFrom cfg sha1 disk now tree = Inr suggs \<Longrightarrow>
   mset (map file_d suggs) \<subseteq># mset (map path (flattenFiles tree))"
proof -
  assume ok: "detectFrom cfg sha1 disk now tree = Inr suggs"
  let ?fs = "flattenFiles tree"
  let ?g = "pushAll (hashPairs cfg sha1 disk ?fs) []"
  have s: "suggs = ruleSuggestions now ?fs @ duplicateSuggestions ?g"
    using ok by (rule detectFrom_result)
  have d: "mset (map file_d (duplicateSuggestions ?g)) \<subseteq># mset (map path (hashedFiles ?fs))"
    using duplicate_files_mset [of ?g]
    by (simp add: pushAll_mset hashPairs_def comp_def)
  have "mset (filter (\<lambda>f. isJunk f \<or> isStaleLarge now f) ?fs)
          + mset (filter (\<lambda>f. \<not> isJunk f \<and> isHashed f) ?fs) \<subseteq># mset ?fs"
    by (rule two_filters_mset) (use large_not_hashed in blast)
  then have "image_mset path (mset (filter (\<lambda>f. isJunk f \<or> isStaleLarge now f) ?fs)
          + mset (filter (\<lambda>f. \<not> isJunk f \<and> isHashed f) ?fs)) \<subseteq># image_mset path (mset ?fs)"
    by (rule image_mset_subseteq_mono)
  then have t: "mset (map path (filter (\<lambda>f. isJunk f \<or> isStaleLarge now f) ?fs))
          + mset (map path (hashedFiles ?fs)) \<subseteq># mset (map path ?fs)"
    by (simp add: hashedFiles_def)
  have "mset (map file_d suggs)
        = mset (map path (filter (\<lambda>f. isJunk f \<or> isStaleLarge now f) ?fs))
          + mset (map file_d (duplicateSuggestions ?g))"
    unfolding s by (simp add: rule_files)
  also have "\<dots> \<subseteq># mset (map path (filter (\<lambda>f. isJunk f \<or> isStaleLarge now f) ?fs))
          + mset (map path (hashedFiles ?fs))"
    using d by (simp add: subset_mset.add_mono)
  finally show ?thesis using t by (rule subset_mset.order_trans)
qed


text \<open>The theorem on the two files with the same content.\<close>

theorem one_suggestion_per_file_witness:
  "detectFrom cfg0 (\<lambda>c. c) diskTwins 5000 twinsTree = Inr [duplicateOf ''/b.txt'' ''/a.txt''] \<and>
   mset (map file_d [duplicateOf ''/b.txt'' ''/a.txt''])
     \<subseteq># mset (map path (flattenFiles twinsTree))"
proof -
  have h: "detectFrom cfg0 (\<lambda>c. c) diskTwins 5000 twinsTree = Inr [duplicateOf ''/b.txt'' ''/a.txt'']"
    by code_simp
  show ?thesis
    using h one_suggestion_per_file [OF h] by blast
qed

text \<open>
  The claim as the specification words it has a file that is a junk artifact and a copy of
  an earlier file suggested twice. \<open>y.bak\<close> has a junk extension and the content (hence the
  digest) of the earlier \<open>x.txt\<close>; it is suggested once, as a junk artifact.
\<close>

theorem junk_copy_suggested_once:
  "detectGarbage cfg0 (\<lambda>c. c) diskJunkCopy 5000
     = Inr [\<lparr>file_d = ''/y.bak'',
             reason_d = ''Temporary or system artifact (bak), last accessed 0 days ago'',
             confidence = High, sizeBytes = Some 5, safeToDelete = True\<rparr>] \<and>
   hashFile (\<lambda>c. c) diskJunkCopy ''/fs/x.txt'' = Inr ''hello'' \<and>
   hashFile (\<lambda>c. c) diskJunkCopy ''/fs/y.bak'' = Inr ''hello''"
  by code_simp

lemma rule_reason:
  "s \<in> set (ruleSuggestions now fs) \<Longrightarrow> \<not> startsWith (reason_d s) ''Duplicate of ''"
  by (induction fs) (auto simp: junkSuggestion_def largeSuggestion_def split: if_splits)

lemma in_drop1: "x \<in> set (drop 1 (as @ y # bs @ x # cs))"
  by (cases as) auto

lemma hashedFiles_append: "hashedFiles (xs @ ys) = hashedFiles xs @ hashedFiles ys"
  by (simp add: hashedFiles_def)

lemma hashGroup_append:
  "hashGroup cfg sha1 disk (xs @ ys) h = hashGroup cfg sha1 disk xs h @ hashGroup cfg sha1 disk ys h"
  by (simp add: hashGroup_def hashedFiles_def)

lemma hashGroup_Cons:
  "hashGroup cfg sha1 disk (f # fs) h =
     (if \<not> isJunk f \<and> isHashed f \<and> digest cfg sha1 disk f = h then [path f] else [])
     @ hashGroup cfg sha1 disk fs h"
  by (simp add: hashGroup_def hashedFiles_def)

lemma group_members:
  "p \<in> set (hashGroup cfg sha1 disk fs h) \<Longrightarrow>
   \<exists>f\<in>set fs. path f = p \<and> \<not> isJunk f \<and> isHashed f"
  by (auto simp: hashGroup_def hashedFiles_def)

lemma duplicates_are_hashed:
  assumes ok: "detectFrom cfg sha1 disk now tree = Inr suggs"
    and s: "s \<in> set suggs" and d: "startsWith (reason_d s) ''Duplicate of ''"
  shows "\<exists>f\<in>set (flattenFiles tree). path f = file_d s \<and> \<not> isJunk f \<and> isHashed f"
proof -
  let ?fs = "flattenFiles tree"
  let ?ps = "hashPairs cfg sha1 disk ?fs"
  from detectFrom_result [OF ok] s rule_reason [of s now ?fs] d
  have "s \<in> set (duplicateSuggestions (pushAll ?ps []))" by auto
  then obtain h files p where
    e: "(h, files) \<in> set (pushAll ?ps [])" and p: "p \<in> set (drop 1 files)"
    and sp: "s = duplicateOf p (files ! 0)"
    unfolding duplicate_iff by blast
  from e have "files = hashGroup cfg sha1 disk ?fs h"
    by (simp add: pushAll_entry group_of_pairs)
  moreover have "p \<in> set files" using p by (meson in_set_dropD)
  ultimately have "p \<in> set (hashGroup cfg sha1 disk ?fs h)" by simp
  from group_members [OF this] show ?thesis
    using sp by (simp add: duplicateOf_def)
qed

text \<open>
  C4, as the program has it. Two files of the flattened snapshot that are not junk
  artifacts, have a size above zero and below 20 MiB and have the same content are in the
  same hash group; every member of the group after its first is suggested as a duplicate of
  the first, with high confidence and as safe to delete; and every duplicate suggestion names
  the path of a file that was hashed, whose size is above zero and below 20 MiB.
\<close>

theorem duplicates_reported:
  "detectFrom cfg sha1 disk now tree = Inr suggs \<Longrightarrow>
   flattenFiles tree = xs @ f1 # ys @ f2 # zs \<Longrightarrow>
   \<not> isJunk f1 \<Longrightarrow> isHashed f1 \<Longrightarrow> \<not> isJunk f2 \<Longrightarrow> isHashed f2 \<Longrightarrow>
   sanitizePath cfg (path f1) = Inr a1 \<Longrightarrow> stat disk a1 = Some (FsFile st1 c) \<Longrightarrow>
   sanitizePath cfg (path f2) = Inr a2 \<Longrightarrow> stat disk a2 = Some (FsFile st2 c) \<Longrightarrow>
   path f1 \<in> set (hashGroup cfg sha1 disk (flattenFiles tree) (sha1 c)) \<and>
   path f2 \<in> set (drop 1 (hashGroup cfg sha1 disk (flattenFiles tree) (sha1 c))) \<and>
   duplicateOf (path f2) (hd (hashGroup cfg sha1 disk (flattenFiles tree) (sha1 c))) \<in> set suggs \<and>
   (\<forall>p\<in>set (drop 1 (hashGroup cfg sha1 disk (flattenFiles tree) (sha1 c))).
      duplicateOf p (hd (hashGroup cfg sha1 disk (flattenFiles tree) (sha1 c))) \<in> set suggs) \<and>
   (\<forall>s\<in>set suggs. startsWith (reason_d s) ''Duplicate of '' \<longrightarrow>
      (\<exists>f\<in>set (flattenFiles tree). path f = file_d s \<and> \<not> isJunk f \<and>
         (\<exists>sz. size_n f = Some sz \<and> sz \<noteq> 0 \<and> sz < 20 * 1024 * 1024)))"
proof -
  assume ok: "detectFrom cfg sha1 disk now tree = Inr suggs"
    and sp: "flattenFiles tree = xs @ f1 # ys @ f2 # zs"
    and q1: "\<not> isJunk f1" "isHashed f1" and q2: "\<not> isJunk f2" "isHashed f2"
    and c1: "sanitizePath cfg (path f1) = Inr a1" "stat disk a1 = Some (FsFile st1 c)"
    and c2: "sanitizePath cfg (path f2) = Inr a2" "stat disk a2 = Some (FsFile st2 c)"
  let ?fs = "flattenFiles tree"
  let ?ps = "hashPairs cfg sha1 disk ?fs"
  let ?grp = "hashGroup cfg sha1 disk ?fs (sha1 c)"
  have d1: "digest cfg sha1 disk f1 = sha1 c"
    using c1 by (simp add: digest_def digestOf_def hashFile_def)
  have d2: "digest cfg sha1 disk f2 = sha1 c"
    using c2 by (simp add: digest_def digestOf_def hashFile_def)
  have g: "?grp = hashGroup cfg sha1 disk xs (sha1 c) @ path f1
              # hashGroup cfg sha1 disk ys (sha1 c) @ path f2 # hashGroup cfg sha1 disk zs (sha1 c)"
    unfolding sp using q1 q2 d1 d2 by (simp add: hashGroup_append hashGroup_Cons)
  have m1: "path f1 \<in> set ?grp" unfolding g by simp
  have m2: "path f2 \<in> set (drop 1 ?grp)" unfolding g by (rule in_drop1)
  have len: "length ?grp > 1" unfolding g by simp
  have hd0: "?grp ! 0 = hd ?grp" using len by (cases ?grp) auto
  have "f1 \<in> set (hashedFiles ?fs)"
    unfolding sp using q1 by (simp add: hashedFiles_def)
  then have "(sha1 c, path f1) \<in> set ?ps"
    using d1 by (force simp: hashPairs_def)
  then have "sha1 c \<in> fst ` set ?ps" by force
  then have e: "(sha1 c, ?grp) \<in> set (pushAll ?ps [])"
    by (simp add: pushAll_entry group_of_pairs)
  have all: "duplicateOf p (hd ?grp) \<in> set suggs" if "p \<in> set (drop 1 ?grp)" for p
  proof -
    have "duplicateOf p (?grp ! 0) \<in> set (duplicateSuggestions (pushAll ?ps []))"
      unfolding duplicate_iff using e len that by blast
    then show ?thesis
      using detectFrom_result [OF ok] hd0 by simp
  qed
  have last: "\<exists>f\<in>set ?fs. path f = file_d s \<and> \<not> isJunk f \<and>
         (\<exists>sz. size_n f = Some sz \<and> sz \<noteq> 0 \<and> sz < 20 * 1024 * 1024)"
    if "s \<in> set suggs" "startsWith (reason_d s) ''Duplicate of ''" for s
    using duplicates_are_hashed [OF ok that]
    by (auto simp: isHashed_def split: option.splits)
  show ?thesis
    using m1 m2 all [OF m2] all last by blast
qed

text \<open>The theorem on the two files with the same content.\<close>

theorem duplicates_reported_witness:
  "detectFrom cfg0 (\<lambda>c. c) diskTwins 5000 twinsTree = Inr [duplicateOf ''/b.txt'' ''/a.txt''] \<and>
   flattenFiles twinsTree = [] @ twinA # [] @ twinB # [] \<and>
   \<not> isJunk twinA \<and> isHashed twinA \<and> \<not> isJunk twinB \<and> isHashed twinB \<and>
   sanitizePath cfg0 (path twinA) = Inr ''/fs/a.txt'' \<and>
   stat diskTwins ''/fs/a.txt''
     = Some (FsFile \<lparr>st_size = 5, st_atimeMs = 1000, st_mtimeMs = 1000\<rparr> ''hello'') \<and>
   sanitizePath cfg0 (path twinB) = Inr ''/fs/b.txt'' \<and>
   stat diskTwins ''/fs/b.txt''
     = Some (FsFile \<lparr>st_size = 5, st_atimeMs = 2000, st_mtimeMs = 2000\<rparr> ''hello'') \<and>
   path twinB \<in> set (drop 1 (hashGroup cfg0 (\<lambda>c. c) diskTwins (flattenFiles twinsTree) ''hello'')) \<and>
   duplicateOf (path twinB) (hd (hashGroup cfg0 (\<lambda>c. c) diskTwins (flattenFiles twinsTree) ''hello''))
     \<in> set [duplicateOf ''/b.txt'' ''/a.txt'']"
proof -
  have h1: "detectFrom cfg0 (\<lambda>c. c) diskTwins 5000 twinsTree = Inr [duplicateOf ''/b.txt'' ''/a.txt'']"
    by code_simp
  have h2: "flattenFiles twinsTree = [] @ twinA # [] @ twinB # []" by code_simp
  have h3: "\<not> isJunk twinA" by code_simp
  have h4: "isHashed twinA" by code_simp
  have h5: "\<not> isJunk twinB" by code_simp
  have h6: "isHashed twinB" by code_simp
  have h7: "sanitizePath cfg0 (path twinA) = Inr ''/fs/a.txt''" by code_simp
  have h8: "stat diskTwins ''/fs/a.txt''
     = Some (FsFile \<lparr>st_size = 5, st_atimeMs = 1000, st_mtimeMs = 1000\<rparr> ''hello'')" by code_simp
  have h9: "sanitizePath cfg0 (path twinB) = Inr ''/fs/b.txt''" by code_simp
  have h10: "stat diskTwins ''/fs/b.txt''
     = Some (FsFile \<lparr>st_size = 5, st_atimeMs = 2000, st_mtimeMs = 2000\<rparr> ''hello'')" by code_simp
  note t = duplicates_reported [OF h1 h2 h3 h4 h5 h6 h7 h8 h9 h10]
  show ?thesis
    using h1 h2 h3 h4 h5 h6 h7 h8 h9 h10 t by blast
qed

text \<open>
  The claim as the specification words it covers any two files below 20 MiB with the same
  content. \<open>a.bak\<close> and \<open>b.bak\<close> have the same content and five bytes each, \<open>e1.txt\<close> and
  \<open>e2.txt\<close> are both empty: the detector suggests the first two as junk artifacts and
  reports no duplicate.
\<close>

theorem junk_and_empty_twins_not_reported:
  "detectGarbage cfg0 (\<lambda>c. c) diskJunkTwins 5000
     = Inr [\<lparr>file_d = ''/a.bak'',
             reason_d = ''Temporary or system artifact (bak), last accessed 0 days ago'',
             confidence = High, sizeBytes = Some 5, safeToDelete = True\<rparr>,
            \<lparr>file_d = ''/b.bak'',
             reason_d = ''Temporary or system artifact (bak), last accessed 0 days ago'',
             confidence = High, sizeBytes = Some 5, safeToDelete = True\<rparr>] \<and>
   stat diskJunkTwins ''/fs/a.bak'' = Some (fileOf 5 1000 ''hello'') \<and>
   stat diskJunkTwins ''/fs/b.bak'' = Some (fileOf 5 1000 ''hello'') \<and>
   stat diskJunkTwins ''/fs/e1.txt'' = Some (fileOf 0 1000 []) \<and>
   stat diskJunkTwins ''/fs/e2.txt'' = Some (fileOf 0 1000 [])"
  by code_simp

text \<open>
  A junk artifact is always suggested, with high confidence and as safe to delete, whatever
  its size, its times and its content; \<open>notes.bak\<close> is one, and so is every file with one of
  the five extensions, with a name that starts with \<open>~\<close>, or named \<open>.DS_Store\<close>. The age in
  the reason is the formula of the specification when the access time is not zero.
\<close>

lemma ageDays_formula:
  "atimeMs f = Some a \<Longrightarrow> a \<noteq> 0 \<Longrightarrow> ageDays now f = (now - a) div 86400000"
  by (simp add: ageDays_def atimeDays_def)

lemma junk_artifact_suggested:
  assumes "detectFrom cfg sha1 disk now tree = Inr suggs"
    and "f \<in> set (flattenFiles tree)" and "isJunk f"
  shows "\<exists>s\<in>set suggs. file_d s = path f \<and> confidence s = High \<and> safeToDelete s \<and>
           sizeBytes s = size_n f \<and>
           reason_d s = ''Temporary or system artifact (''
             @ (if lowerExt f \<noteq> [] then lowerExt f else name f)
             @ ''), last accessed '' @ showInt (ageDays now f) @ '' days ago''"
  using junk_suggested [OF assms] by (intro bexI [of _ "junkSuggestion now f"]) (simp_all add: junkSuggestion_def)

lemma notes_bak_is_junk:
  "basename absPath = ''notes.bak'' \<Longrightarrow> isJunk (buildNode cfg absPath (FsFile st c))"
  by (simp add: isJunk_def lowerExt_def extname_def toLowerCase_def lowerChar_def)

lemma junk_by_extension:
  "ext f = Some e \<Longrightarrow> e \<in> {''tmp'', ''log'', ''cache'', ''bak'', ''old''} \<Longrightarrow> isJunk f"
  by (auto simp: isJunk_def lowerExt_def toLowerCase_def lowerChar_def)

lemma junk_by_name:
  "name f = CHR ''~'' # rest \<or> name f = ''.DS_Store'' \<Longrightarrow> isJunk f"
  by (auto simp: isJunk_def endsWith_def)


text \<open>
  C8. The reason of a junk artifact gives the age in days as
  \<open>floor((now - atime) / 86_400_000)\<close>. The program breaks this for a file last accessed at
  the epoch: \<open>file.atimeMs ? ... : 0\<close> takes the time stamp 0 for a missing one. Five days
  after the epoch, \<open>notes.bak\<close> with access time 0 is said to be last accessed 0 days ago.
\<close>

theorem junk_age_of_zero_atime:
  "detectGarbage cfg0 (\<lambda>c. c) diskBak 432000000
     = Inr [\<lparr>file_d = ''/notes.bak'',
             reason_d = ''Temporary or system artifact (bak), last accessed 0 days ago'',
             confidence = High, sizeBytes = Some 5, safeToDelete = True\<rparr>] \<and>
   stat diskBak ''/fs/notes.bak'' = Some (fileOf 5 0 ''draft'') \<and>
   (432000000 - 0) div (1000 * 60 * 60 * 24) = (5 :: int)"
  by code_simp

subsection \<open>The applier\<close>












end
